theory Spec2Isabelle
  imports Complex_Main "HOL-Library.Word"
begin

section \<open>The chunked uploader \<open>HugeUploaderNodeClient\<close>\<close>

text \<open>
  A shallow embedding of the class \<open>HugeUploaderNodeClient\<close>. The promise chain of
  \<open>_sendChunks\<close> is sequential (one read, one POST, one handler at a time), so a session is a
  deterministic loop over a state. Conventions of the model:
  \<^item> sizes and counters are natural numbers, which a Number holds exactly below \<open>2\<^sup>5\<^sup>3\<close>; the
    quotient of the file size by the chunk size is taken exactly before \<open>Math.ceil\<close>; the
    percentage is computed as the code computes it, with each operation rounded to a double;
  \<^item> the settings have the types their documentation gives them: the chunk size is a whole
    number of megabytes. Neither the buffer nor a read is limited in length, whereas Node
    takes the length of a read as a 32-bit integer and refuses to allocate beyond the
    platform's maximum: from 2048 MB on the model does not follow the code;
  \<^item> the server is an oracle from the number of POSTs already issued to the outcome of the
    next one, so every server behaviour is covered;
  \<^item> reading an open descriptor never fails and returns every byte there is, up to the
    length asked for; reading a closed one fails with \<open>EBADF\<close>;
  \<^item> the delay before a retry is not modelled, only the order of what happens;
  \<^item> of the headers only \<open>uploader-chunk-number\<close> is kept: the file id, the total and the
    caller's headers are the same on every request of a session;
  \<^item> the caller has registered its listeners, and no listener throws;
  \<^item> what a session does is recorded as a trace of actions, in the order they happen: the
    events emitted and the POST requests issued.
\<close>

subsection \<open>Data\<close>

type_synonym byte = "8 word"

datatype failure = TypeError | ENOENT | EACCES | EBADF

text \<open>The outcome of \<open>fetch\<close>: a response with its status, or a rejected promise.\<close>

datatype outcome = Response nat | Rejected

text \<open>The value of \<open>Math.round((100 / totalChunks) * chunkCount)\<close>; dividing by zero gives
  \<open>Infinity\<close> in JavaScript.\<close>

datatype percent = Percent int | Infinity

datatype event =
    Progress percent
  | Finish
  | Error string
  | FileRetry string nat nat

datatype form_entry = Field string string | FileField "byte list"

text \<open>A POST request: the header \<open>uploader-chunk-number\<close> and the multipart body.\<close>

record request =
  chunk_number :: nat
  form :: "form_entry list"

datatype action = Emit event | Post request

text \<open>What \<open>_getChunk\<close> resolves to.\<close>

record chunk =
  data :: "byte list"
  lastChunk :: bool

text \<open>The fields of \<open>this\<close> that are fixed once the constructor has run, with the two parts
  of the environment a session talks to: the bytes of the file at the path \<open>this.file\<close>
  (what \<open>this.fd\<close> reads once it is open) and the server.\<close>

record uploader =
  file_bytes :: "byte list"
  postParams :: "(string \<times> string) list option"
  chunkSizeBytes :: nat
  retries :: nat
  totalChunks :: nat
  server :: "nat \<Rightarrow> outcome"

text \<open>The fields that change: the two counters of \<open>this\<close>, the state of the descriptor
  (open or closed, and its file position), and the number of POSTs issued so far.\<close>

record session =
  chunkCount :: nat
  retriesCount :: nat
  fd_open :: bool
  fd_pos :: nat
  posts :: nat

text \<open>Whether another turn of \<open>_sendChunks\<close> has been scheduled.\<close>

datatype next_turn = Continue | Stop

subsection \<open>Messages\<close>

definition digit :: "nat \<Rightarrow> char" where
  "digit n = ''0123456789'' ! n"

function show_nat :: "nat \<Rightarrow> string" where
  "show_nat n = (if n < 10 then [digit n] else show_nat (n div 10) @ [digit (n mod 10)])"
  by pat_completeness auto
termination
  by (relation "measure id") auto

declare show_nat.simps [simp del]

definition retry_message :: "nat \<Rightarrow> nat \<Rightarrow> string" where
  "retry_message k left =
     ''An error occured uploading chunk '' @ show_nat k @ ''. '' @ show_nat left @ '' retries left''"

definition no_retries_message :: "nat \<Rightarrow> string" where
  "no_retries_message k =
     ''An error occured uploading chunk '' @ show_nat k @ ''. No more retries, stopping upload''"

definition status_message :: "nat \<Rightarrow> string" where
  "status_message st = ''Server responded with '' @ show_nat st @ ''. Stopping upload''"

subsection \<open>Reading a chunk\<close>

text \<open>\<open>fs.read(fd, chunk, 0, chunkSizeBytes, null, ...)\<close>: position \<open>null\<close> reads at the
  descriptor's own file position and advances it by the bytes read.\<close>

definition fs_read :: "uploader \<Rightarrow> session \<Rightarrow> (failure + byte list) \<times> session" where
  "fs_read u s =
     (if \<not> fd_open s then (Inl EBADF, s)
      else let bs = take (chunkSizeBytes u) (drop (fd_pos s) (file_bytes u))
           in (Inr bs, s\<lparr>fd_pos := fd_pos s + length bs\<rparr>))"

definition getChunk :: "uploader \<Rightarrow> session \<Rightarrow> (failure + chunk option) \<times> session" where
  "getChunk u s =
     (case fs_read u s of
        (Inl err, s1) \<Rightarrow> (Inl err, s1)
      | (Inr bs, s1) \<Rightarrow>
          (let nread = length bs in
           if nread = 0 then (Inr None, s1\<lparr>fd_open := False\<rparr>)
           else if nread < chunkSizeBytes u
             then (Inr (Some \<lparr>data = take nread bs, lastChunk = True\<rparr>), s1)
             else (Inr (Some \<lparr>data = bs, lastChunk = False\<rparr>), s1)))"

subsection \<open>Sending a chunk\<close>

text \<open>Building the request throws a \<open>TypeError\<close> when the parameter is \<open>undefined\<close> (it
  is destructured) and when \<open>Object.keys\<close> is applied to an absent \<open>postParams\<close>.\<close>

definition sendChunk :: "uploader \<Rightarrow> session \<Rightarrow> chunk option \<Rightarrow> failure + request" where
  "sendChunk u s out =
     (case out of
        None \<Rightarrow> Inl TypeError
      | Some ch \<Rightarrow>
          (if lastChunk ch then
             (case postParams u of
                None \<Rightarrow> Inl TypeError
              | Some pp \<Rightarrow>
                  Inr \<lparr>chunk_number = chunkCount s,
                       form = map (\<lambda>(k, v). Field k v) pp @ [FileField (data ch)]\<rparr>)
           else Inr \<lparr>chunk_number = chunkCount s, form = [FileField (data ch)]\<rparr>))"

definition fetch :: "uploader \<Rightarrow> session \<Rightarrow> request \<Rightarrow> outcome \<times> session" where
  "fetch u s req = (server u (posts s), s\<lparr>posts := posts s + 1\<rparr>)"

subsection \<open>The controller\<close>

definition manageRetries :: "uploader \<Rightarrow> session \<Rightarrow> action list \<times> session \<times> next_turn" where
  "manageRetries u s =
     (let s' = s\<lparr>retriesCount := retriesCount s + 1\<rparr> in
      if retriesCount s < retries u
      then ([Emit (FileRetry (retry_message (chunkCount s') (retries u - retriesCount s'))
                     (chunkCount s') (retries u - retriesCount s'))], s', Continue)
      else ([Emit (Error (no_retries_message (chunkCount s')))], s', Stop))"

text \<open>
  JavaScript Numbers are IEEE doubles: \<open>/\<close> and \<open>*\<close> return the exact result rounded to the
  nearest double, ties to the even mantissa. \<open>exponent x\<close> is the integer \<open>e\<close> with
  \<open>2\<^sup>e \<le> x < 2\<^sup>e\<^sup>+\<^sup>1\<close>; a double near \<open>x\<close> is a multiple of \<open>2\<^sup>e\<^sup>-\<^sup>5\<^sup>2\<close> (53 bits of mantissa),
  and \<open>fl x\<close> is the nearest one. Overflow and subnormal numbers are left out: the values
  rounded here lie between \<open>100 / 2\<^sup>5\<^sup>3\<close> and \<open>100 * 2\<^sup>5\<^sup>3\<close>. Integers below \<open>2\<^sup>5\<^sup>3\<close> are
  doubles, so the counters are kept as natural numbers.
\<close>

function exponent :: "rat \<Rightarrow> int" where
  "exponent x =
     (if x \<le> 0 then 0
      else if x < 1 then exponent (2 * x) - 1
      else if 2 \<le> x then exponent (x / 2) + 1
      else 0)"
  by pat_completeness auto
termination
proof (relation "measure (\<lambda>x. if 1 \<le> x then nat \<lfloor>x\<rfloor> else nat \<lceil>1 / x\<rceil>)")
  show "wf (measure (\<lambda>x::rat. if 1 \<le> x then nat \<lfloor>x\<rfloor> else nat \<lceil>1 / x\<rceil>))" by simp
next
  fix x :: rat
  assume a: "\<not> x \<le> 0" "x < 1"
  have y: "1 < 1 / x" using a by simp
  show "(2 * x, x) \<in> measure (\<lambda>x. if 1 \<le> x then nat \<lfloor>x\<rfloor> else nat \<lceil>1 / x\<rceil>)"
  proof (cases "1 \<le> 2 * x")
    case True
    then have "\<lfloor>2 * x\<rfloor> = 1" using a by (intro floor_unique) auto
    moreover have "2 \<le> \<lceil>1 / x\<rceil>" using y by linarith
    ultimately show ?thesis using a True by simp
  next
    case False
    then have "2 < 1 / x" using a by (simp add: field_simps)
    then have "1 / (2 * x) \<le> 1 / x - 1" by (simp add: field_simps)
    then have "\<lceil>1 / (2 * x)\<rceil> \<le> \<lceil>1 / x - 1\<rceil>" by (rule ceiling_mono)
    then have "\<lceil>1 / (2 * x)\<rceil> < \<lceil>1 / x\<rceil>" by simp
    moreover have "0 < \<lceil>1 / x\<rceil>" using y by linarith
    ultimately show ?thesis using a False by simp
  qed
next
  fix x :: rat
  assume a: "\<not> x \<le> 0" "\<not> x < 1" "2 \<le> x"
  have "x / 2 \<le> x - 1" using a by simp
  then have "\<lfloor>x / 2\<rfloor> \<le> \<lfloor>x - 1\<rfloor>" by (rule floor_mono)
  then have "\<lfloor>x / 2\<rfloor> < \<lfloor>x\<rfloor>" by simp
  moreover have "0 < \<lfloor>x\<rfloor>" using a by linarith
  ultimately show "(x / 2, x) \<in> measure (\<lambda>x. if 1 \<le> x then nat \<lfloor>x\<rfloor> else nat \<lceil>1 / x\<rceil>)"
    using a by simp
qed

declare exponent.simps [simp del]

definition round_even :: "rat \<Rightarrow> int" where
  "round_even m =
     (let f = \<lfloor>m\<rfloor>; d = m - of_int f
      in if d < 1 / 2 then f else if 1 / 2 < d then f + 1 else if even f then f else f + 1)"

definition fl :: "rat \<Rightarrow> rat" where
  "fl x =
     (if x = 0 then 0
      else let ulp = 2 powi (exponent \<bar>x\<bar> - 52)
           in sgn x * of_int (round_even (\<bar>x\<bar> / ulp)) * ulp)"

text \<open>\<open>Math.round((100 / totalChunks) * chunkCount)\<close>: the quotient and the product are
  rounded to doubles, and \<open>Math.round\<close> takes the nearest integer, a half going up.\<close>

definition percent_of :: "nat \<Rightarrow> nat \<Rightarrow> percent" where
  "percent_of t k =
     (if t = 0 then Infinity
      else Percent (round (fl (fl (100 / of_nat t) * of_nat k))))"

definition percentProgress :: "uploader \<Rightarrow> session \<Rightarrow> percent" where
  "percentProgress u s = percent_of (totalChunks u) (chunkCount s)"

text \<open>The handler of the response. When the next turn is started, its read is only begun
  before \<open>progress\<close> is emitted; everything the next turn emits comes later.\<close>

definition on_response :: "uploader \<Rightarrow> session \<Rightarrow> nat \<Rightarrow> action list \<times> session \<times> next_turn" where
  "on_response u s status =
     (if status = 200 \<or> status = 201 \<or> status = 204 then
        (let s' = s\<lparr>chunkCount := chunkCount s + 1\<rparr> in
         if chunkCount s' < totalChunks u
         then ([Emit (Progress (percentProgress u s'))], s', Continue)
         else ([Emit Finish, Emit (Progress (percentProgress u s'))], s', Stop))
      else if status \<in> set [408, 502, 503, 504] then manageRetries u s
      else ([Emit (Error (status_message status))], s, Stop))"

text \<open>One turn of \<open>_sendChunks\<close>: read, send, handle the response; any failure on the way
  goes to the \<open>catch\<close>, which calls \<open>_manageRetries\<close>.\<close>

definition turn :: "uploader \<Rightarrow> session \<Rightarrow> action list \<times> session \<times> next_turn" where
  "turn u s =
     (case getChunk u s of
        (Inl err, s1) \<Rightarrow> manageRetries u s1
      | (Inr out, s1) \<Rightarrow>
          (case sendChunk u s1 out of
             Inl err \<Rightarrow> manageRetries u s1
           | Inr req \<Rightarrow>
               (case fetch u s1 req of
                  (Rejected, s2) \<Rightarrow>
                    (case manageRetries u s2 of (acts, s3, nx) \<Rightarrow> (Post req # acts, s3, nx))
                | (Response status, s2) \<Rightarrow>
                    (case on_response u s2 status of (acts, s3, nx) \<Rightarrow> (Post req # acts, s3, nx)))))"

function sendChunks :: "uploader \<Rightarrow> session \<Rightarrow> action list \<times> session" where
  "sendChunks u s =
     (case turn u s of
        (acts, s', Stop) \<Rightarrow> (acts, s')
      | (acts, s', Continue) \<Rightarrow>
          (case sendChunks u s' of (rest, s'') \<Rightarrow> (acts @ rest, s'')))"
  by pat_completeness auto
termination
  by (relation "measure (\<lambda>(u, s). (totalChunks u - chunkCount s) + (Suc (retries u) - retriesCount s))")
     (auto simp: turn_def getChunk_def fs_read_def sendChunk_def fetch_def manageRetries_def
        on_response_def Let_def
      split: if_splits prod.splits sum.splits option.splits outcome.splits)

declare sendChunks.simps [simp del]

subsection \<open>Starting a session\<close>

text \<open>The settings object, with the types its documentation gives the fields: an absent
  \<open>endpoint\<close> is the empty string, an absent \<open>chunkSize\<close> (megabytes) or \<open>retries\<close> is
  \<open>0\<close>, which the constructor's \<open>||\<close> treats like an absent one. With these types the only
  check of \<open>_validateParams\<close> that can fail is the one on \<open>endpoint\<close>.\<close>

record params =
  p_endpoint :: string
  p_file :: string
  p_postParams :: "(string \<times> string) list option"
  p_chunkSize :: nat
  p_retries :: nat

text \<open>What the file system holds at a path.\<close>

datatype node = Missing | Unreadable "byte list" | Readable "byte list"

definition contents :: "node \<Rightarrow> byte list" where
  "contents nd = (case nd of Missing \<Rightarrow> [] | Unreadable bs \<Rightarrow> bs | Readable bs \<Rightarrow> bs)"

definition validateParams :: "params \<Rightarrow> failure + unit" where
  "validateParams p = (if p_endpoint p = [] then Inl TypeError else Inr ())"

definition statSync :: "node \<Rightarrow> failure + nat" where
  "statSync nd =
     (case nd of
        Missing \<Rightarrow> Inl ENOENT
      | Unreadable bs \<Rightarrow> Inr (length bs)
      | Readable bs \<Rightarrow> Inr (length bs))"

definition fs_open :: "node \<Rightarrow> failure + unit" where
  "fs_open nd =
     (case nd of
        Missing \<Rightarrow> Inl ENOENT
      | Unreadable bs \<Rightarrow> Inl EACCES
      | Readable bs \<Rightarrow> Inr ())"

definition initial :: session where
  "initial = \<lparr>chunkCount = 0, retriesCount = 0, fd_open = False, fd_pos = 0, posts = 0\<rparr>"

definition startSending :: "node \<Rightarrow> uploader \<Rightarrow> session \<Rightarrow> action list \<times> session" where
  "startSending nd u s =
     (case fs_open nd of
        Inl err \<Rightarrow> ([Emit (Error ''Failed starting to sending chunks'')], s)
      | Inr _ \<Rightarrow> sendChunks u (s\<lparr>fd_open := True, fd_pos := 0\<rparr>))"

text \<open>\<open>new HugeUploaderNodeClient(params)\<close>, on a disk and against a server: either the
  exception the constructor throws, or the object with everything the session then does
  (its trace and its last state).\<close>

definition constructor ::
  "(string \<Rightarrow> node) \<Rightarrow> (nat \<Rightarrow> outcome) \<Rightarrow> params \<Rightarrow> failure + (uploader \<times> action list \<times> session)" where
  "constructor disk srv p =
     (let chunkSize = (if p_chunkSize p = 0 then 10 else p_chunkSize p);
          csb = chunkSize * 1024 * 1024;
          r = (if p_retries p = 0 then 5 else p_retries p)
      in case validateParams p of
           Inl err \<Rightarrow> Inl err
         | Inr _ \<Rightarrow>
             (case statSync (disk (p_file p)) of
                Inl err \<Rightarrow> Inl err
              | Inr fileSize \<Rightarrow>
                  (let u = \<lparr>file_bytes = contents (disk (p_file p)),
                            postParams = p_postParams p, chunkSizeBytes = csb, retries = r,
                            totalChunks = nat \<lceil>(of_nat fileSize / of_nat csb :: rat)\<rceil>,
                            server = srv\<rparr>
                   in Inr (u, startSending (disk (p_file p)) u initial))))"

subsection \<open>Reading a trace\<close>

fun events_of :: "action list \<Rightarrow> event list" where
  "events_of [] = []"
| "events_of (Emit e # as) = e # events_of as"
| "events_of (Post r # as) = events_of as"

fun posts_of :: "action list \<Rightarrow> request list" where
  "posts_of [] = []"
| "posts_of (Emit e # as) = posts_of as"
| "posts_of (Post r # as) = r # posts_of as"

subsection \<open>Auxiliary notions for stating the results\<close>

text \<open>The rest of a session after one turn.\<close>

fun resume :: "uploader \<Rightarrow> action list \<times> session \<times> next_turn \<Rightarrow> action list \<times> session" where
  "resume u (acts, s', Stop) = (acts, s')"
| "resume u (acts, s', Continue) = (acts @ fst (sendChunks u s'), snd (sendChunks u s'))"

text \<open>The \<open>fileRetry\<close> events for chunk \<open>k\<close> that a run of failures produces when \<open>n\<close>
  retries are already counted: one for each count from \<open>n + 1\<close> up to the budget.\<close>

definition notices :: "uploader \<Rightarrow> nat \<Rightarrow> nat \<Rightarrow> event list" where
  "notices u k n =
     map (\<lambda>i. FileRetry (retry_message k (retries u - i)) k (retries u - i))
       [Suc n ..< Suc (retries u)]"

text \<open>A state in which no request can be built any more: the descriptor is closed, or the
  next read returns no byte, or it returns a short chunk and there are no \<open>postParams\<close>
  to enumerate.\<close>

definition doomed :: "uploader \<Rightarrow> session \<Rightarrow> bool" where
  "doomed u s =
     (\<not> fd_open s \<or>
      (let nread = length (take (chunkSizeBytes u) (drop (fd_pos s) (file_bytes u)))
       in nread = 0 \<or> (nread < chunkSizeBytes u \<and> postParams u = None)))"

text \<open>A failure that the retry policy handles: one of the four statuses, or a rejected
  request.\<close>

definition transient :: "outcome \<Rightarrow> bool" where
  "transient oc = (case oc of Response st \<Rightarrow> st \<in> set [408, 502, 503, 504] | Rejected \<Rightarrow> True)"

definition is_retry :: "event \<Rightarrow> bool" where
  "is_retry e = (case e of FileRetry m k left \<Rightarrow> True | _ \<Rightarrow> False)"

definition is_progress :: "event \<Rightarrow> bool" where
  "is_progress e = (case e of Progress p \<Rightarrow> True | _ \<Rightarrow> False)"

text \<open>The turn issues a POST and the server answers 200, 201 or 204.\<close>

definition accepted_turn :: "uploader \<Rightarrow> session \<Rightarrow> bool" where
  "accepted_turn u s =
     (case getChunk u s of
        (Inl err, s1) \<Rightarrow> False
      | (Inr out, s1) \<Rightarrow>
          (case sendChunk u s1 out of
             Inl err \<Rightarrow> False
           | Inr req \<Rightarrow>
               (case server u (posts s1) of
                  Response st \<Rightarrow> st = 200 \<or> st = 201 \<or> st = 204
                | Rejected \<Rightarrow> False)))"

text \<open>The turn issues a POST and the server answers a status outside both sets.\<close>

definition permanent_turn :: "uploader \<Rightarrow> session \<Rightarrow> bool" where
  "permanent_turn u s =
     (case getChunk u s of
        (Inl err, s1) \<Rightarrow> False
      | (Inr out, s1) \<Rightarrow>
          (case sendChunk u s1 out of
             Inl err \<Rightarrow> False
           | Inr req \<Rightarrow>
               (case server u (posts s1) of
                  Response st \<Rightarrow>
                    \<not> (st = 200 \<or> st = 201 \<or> st = 204) \<and> st \<notin> set [408, 502, 503, 504]
                | Rejected \<Rightarrow> False)))"

text \<open>An answer that accepts the chunk.\<close>

definition accepts :: "outcome \<Rightarrow> bool" where
  "accepts oc = (case oc of Response st \<Rightarrow> st = 200 \<or> st = 201 \<or> st = 204 | Rejected \<Rightarrow> False)"

text \<open>The bytes a request carries in its \<open>file\<close> field.\<close>

definition file_part :: "request \<Rightarrow> byte list" where
  "file_part r = concat (map (\<lambda>e. case e of Field k v \<Rightarrow> [] | FileField bs \<Rightarrow> bs) (form r))"

text \<open>A list cut into pieces of \<open>c\<close> elements, the last one possibly shorter.\<close>

function chunks_of :: "nat \<Rightarrow> 'a list \<Rightarrow> 'a list list" where
  "chunks_of c xs = (if c = 0 \<or> xs = [] then [] else take c xs # chunks_of c (drop c xs))"
  by pat_completeness auto
termination
  by (relation "measure (\<lambda>(c, xs). length xs)") auto

declare chunks_of.simps [simp del]

section \<open>Properties\<close>

subsection \<open>Unfolding a session\<close>

lemma sendChunks_resume: "sendChunks u s = resume u (turn u s)"
  by (subst sendChunks.simps) (auto split: prod.splits next_turn.splits)

lemma sendChunks_Stop: "turn u s = (acts, s', Stop) \<Longrightarrow> sendChunks u s = (acts, s')"
  by (simp add: sendChunks_resume)

lemma sendChunks_Continue:
  "turn u s = (acts, s', Continue) \<Longrightarrow>
   sendChunks u s = (acts @ fst (sendChunks u s'), snd (sendChunks u s'))"
  by (simp add: sendChunks_resume)

lemmas run_eval = sendChunks_resume turn_def getChunk_def fs_read_def sendChunk_def fetch_def
  on_response_def manageRetries_def Let_def

lemmas start_eval = constructor_def validateParams_def statSync_def fs_open_def contents_def
  startSending_def initial_def

lemmas message_eval = retry_message_def no_retries_message_def status_message_def
  show_nat.simps digit_def

subsection \<open>Arithmetic of the chunk count and the percentage\<close>

lemma total_gt_iff:
  assumes "0 < c"
  shows "k < nat \<lceil>(of_nat n / of_nat c :: rat)\<rceil> \<longleftrightarrow> k * c < n"
proof -
  have "k < nat \<lceil>(of_nat n / of_nat c :: rat)\<rceil> \<longleftrightarrow> int k < \<lceil>(of_nat n / of_nat c :: rat)\<rceil>"
    by linarith
  also have "\<dots> \<longleftrightarrow> (of_int (int k) :: rat) < of_nat n / of_nat c"
    by (rule less_ceiling_iff)
  also have "\<dots> \<longleftrightarrow> (of_nat k :: rat) * of_nat c < of_nat n"
    using assms by (simp add: pos_less_divide_eq)
  also have "\<dots> \<longleftrightarrow> (of_nat (k * c) :: rat) < of_nat n"
    by simp
  also have "\<dots> \<longleftrightarrow> k * c < n"
    by (rule of_nat_less_iff)
  finally show ?thesis .
qed

lemma div_gt_iff:
  assumes "0 < c"
  shows "k < (n + c - 1) div c \<longleftrightarrow> k * c < (n::nat)"
proof -
  have "k < (n + c - 1) div c \<longleftrightarrow> Suc k \<le> (n + c - 1) div c" by auto
  also have "\<dots> \<longleftrightarrow> Suc k * c \<le> n + c - 1"
    using assms by (rule less_eq_div_iff_mult_less_eq)
  also have "\<dots> \<longleftrightarrow> k * c < n"
    using assms by auto
  finally show ?thesis .
qed

lemma ceiling_div_nat:
  assumes "0 < c"
  shows "nat \<lceil>(of_nat n / of_nat c :: rat)\<rceil> = (n + c - 1) div c"
proof -
  have "\<And>k. k < nat \<lceil>(of_nat n / of_nat c :: rat)\<rceil> \<longleftrightarrow> k < (n + c - 1) div c"
    by (simp only: total_gt_iff [OF assms] div_gt_iff [OF assms])
  then show ?thesis
    by (meson linorder_neqE_nat less_irrefl)
qed

lemma ceiling_div_numeral:
  "nat \<lceil>(numeral a / numeral b :: rat)\<rceil> = (numeral a + numeral b - 1) div numeral b"
  using ceiling_div_nat [of "numeral b" "numeral a"] by simp

lemma percent_values:
  "percent_of (Suc 0) (Suc 0) = Percent 100"
  "percent_of 2 (Suc 0) = Percent 50"
  "percent_of 2 (Suc (Suc 0)) = Percent 100"
  "percent_of 3 (Suc 0) = Percent 33"
  "percent_of 3 (Suc (Suc 0)) = Percent 67"
  "percent_of 3 (Suc (Suc (Suc 0))) = Percent 100"
  "percent_of 232 145 = Percent 62"
  by code_simp+

lemmas percent_eval = percentProgress_def percent_values

subsection \<open>The retry policy\<close>

lemma notices_step:
  "n < retries u \<Longrightarrow> notices u k n =
     FileRetry (retry_message k (retries u - Suc n)) k (retries u - Suc n) # notices u k (Suc n)"
  by (simp add: notices_def upt_conv_Cons)

lemma notices_done: "\<not> n < retries u \<Longrightarrow> notices u k n = []"
  by (simp add: notices_def)

lemma length_notices: "length (notices u k n) = retries u - n"
  by (auto simp: notices_def)

lemma manageRetries_Continue:
  "retriesCount s < retries u \<Longrightarrow>
   manageRetries u s =
     ([Emit (FileRetry (retry_message (chunkCount s) (retries u - Suc (retriesCount s)))
               (chunkCount s) (retries u - Suc (retriesCount s)))],
      s\<lparr>retriesCount := Suc (retriesCount s)\<rparr>, Continue)"
  by (simp add: manageRetries_def)

lemma manageRetries_Stop:
  "\<not> retriesCount s < retries u \<Longrightarrow>
   manageRetries u s =
     ([Emit (Error (no_retries_message (chunkCount s)))],
      s\<lparr>retriesCount := Suc (retriesCount s)\<rparr>, Stop)"
  by (simp add: manageRetries_def)

subsection \<open>Sessions that can only fail\<close>

lemma doomed_retriesCount [simp]: "doomed u (s\<lparr>retriesCount := n\<rparr>) = doomed u s"
  by (simp add: doomed_def)

lemma doomed_turn:
  assumes "doomed u s"
  shows "\<exists>s1. turn u s = manageRetries u s1 \<and> chunkCount s1 = chunkCount s
            \<and> retriesCount s1 = retriesCount s \<and> posts s1 = posts s \<and> doomed u s1"
  using assms
  by (auto simp: doomed_def turn_def getChunk_def fs_read_def sendChunk_def Let_def min_def
      split: if_splits)

lemma doomed_run:
  "doomed u s \<Longrightarrow>
   fst (sendChunks u s) =
     map Emit (notices u (chunkCount s) (retriesCount s)) @
     [Emit (Error (no_retries_message (chunkCount s)))]"
proof (induction u s rule: sendChunks.induct)
  case (1 u s)
  from doomed_turn [OF "1.prems"] obtain s1 where
    t: "turn u s = manageRetries u s1" and
    c: "chunkCount s1 = chunkCount s" and r: "retriesCount s1 = retriesCount s" and
    d: "doomed u s1"
    by blast
  show ?case
  proof (cases "retriesCount s < retries u")
    case True
    let ?s' = "s1\<lparr>retriesCount := Suc (retriesCount s1)\<rparr>"
    let ?e = "Emit (FileRetry (retry_message (chunkCount s) (retries u - Suc (retriesCount s)))
               (chunkCount s) (retries u - Suc (retriesCount s)))"
    have t': "turn u s = ([?e], ?s', Continue)"
      using t True c r by (simp add: manageRetries_Continue)
    have "fst (sendChunks u ?s') =
          map Emit (notices u (chunkCount ?s') (retriesCount ?s')) @
          [Emit (Error (no_retries_message (chunkCount ?s')))]"
      using "1.IH" t' d by simp
    then show ?thesis
      using True c r by (simp add: sendChunks_Continue [OF t'] notices_step)
  next
    case False
    then have "turn u s = ([Emit (Error (no_retries_message (chunkCount s)))],
                 s1\<lparr>retriesCount := Suc (retriesCount s1)\<rparr>, Stop)"
      using t c r by (simp add: manageRetries_Stop)
    then show ?thesis
      using False by (simp add: sendChunks_Stop notices_done)
  qed
qed

lemma posts_of_map_Emit [simp]: "posts_of (map Emit es) = []"
  by (induction es) auto

lemma posts_of_append [simp]: "posts_of (xs @ ys) = posts_of xs @ posts_of ys"
  by (induction xs rule: posts_of.induct) auto

lemma events_of_map_Emit [simp]: "events_of (map Emit es) = es"
  by (induction es) auto

lemma events_of_append [simp]: "events_of (xs @ ys) = events_of xs @ events_of ys"
  by (induction xs rule: events_of.induct) auto

subsection \<open>A file of zero bytes\<close>

text \<open>
  Claim C10. For a file of zero bytes the constructor computes \<open>totalChunks = 0\<close>; the first
  read returns no byte and closes the descriptor; no request is ever issued; the session
  emits one \<open>fileRetry\<close> event for each unit of the retry budget and then exactly one
  \<open>error\<close> event, and \<open>finish\<close> is never emitted.
\<close>

theorem zero_byte_file:
  assumes "p_endpoint p \<noteq> []" and "disk (p_file p) = Readable []"
  shows "case constructor disk srv p of
           Inl err \<Rightarrow> False
         | Inr (u, tr, sf) \<Rightarrow>
             totalChunks u = 0 \<and>
             getChunk u (initial\<lparr>fd_open := True\<rparr>) = (Inr None, initial\<lparr>fd_open := False\<rparr>) \<and>
             tr = map Emit (notices u 0 0) @ [Emit (Error (no_retries_message 0))] \<and>
             length (notices u 0 0) = retries u \<and>
             posts_of tr = [] \<and>
             Finish \<notin> set (events_of tr)"
proof -
  define u where "u = \<lparr>file_bytes = [], postParams = p_postParams p,
      chunkSizeBytes = (if p_chunkSize p = 0 then 10 else p_chunkSize p) * 1024 * 1024,
      retries = (if p_retries p = 0 then 5 else p_retries p),
      totalChunks = 0, server = srv\<rparr>"
  define s where "s = initial\<lparr>fd_open := True, fd_pos := 0\<rparr>"
  have c: "constructor disk srv p = Inr (u, sendChunks u s)"
    using assms by (simp add: start_eval u_def s_def Let_def)
  have d: "doomed u s"
    by (simp add: doomed_def u_def)
  have tr: "fst (sendChunks u s) = map Emit (notices u 0 0) @ [Emit (Error (no_retries_message 0))]"
    using doomed_run [OF d] by (simp add: s_def initial_def)
  have g: "getChunk u (initial\<lparr>fd_open := True\<rparr>) = (Inr None, initial\<lparr>fd_open := False\<rparr>)"
    by (simp add: getChunk_def fs_read_def u_def initial_def)
  have f: "Finish \<notin> set (notices u 0 0)"
    by (auto simp: notices_def)
  have z: "totalChunks u = 0"
    by (simp add: u_def)
  obtain tr sf where r: "sendChunks u s = (tr, sf)"
    by (cases "sendChunks u s")
  with tr have "tr = map Emit (notices u 0 0) @ [Emit (Error (no_retries_message 0))]"
    by simp
  with c r g f z show ?thesis
    by (simp add: length_notices)
qed

theorem zero_byte_file_witness:
  "constructor (\<lambda>path. Readable []) (\<lambda>n. Response 200)
     \<lparr>p_endpoint = ''http://localhost/upload'', p_file = ''/tmp/empty'',
      p_postParams = Some [], p_chunkSize = 0, p_retries = 2\<rparr>
   = Inr (\<lparr>file_bytes = [], postParams = Some [], chunkSizeBytes = 10485760, retries = 2,
           totalChunks = 0, server = (\<lambda>n. Response 200)\<rparr>,
          [Emit (FileRetry ''An error occured uploading chunk 0. 1 retries left'' 0 1),
           Emit (FileRetry ''An error occured uploading chunk 0. 0 retries left'' 0 0),
           Emit (Error ''An error occured uploading chunk 0. No more retries, stopping upload'')],
          \<lparr>chunkCount = 0, retriesCount = 3, fd_open = False, fd_pos = 0, posts = 0\<rparr>)"
  using zero_byte_file [of "\<lparr>p_endpoint = ''http://localhost/upload'', p_file = ''/tmp/empty'',
      p_postParams = Some [], p_chunkSize = 0, p_retries = 2\<rparr>" "\<lambda>path. Readable []"
      "\<lambda>n. Response 200"]
  by (simp add: start_eval run_eval message_eval)

subsection \<open>Unbroken transient failures\<close>

lemma transient_turn:
  assumes "\<forall>n. transient (server u n)"
  shows "\<exists>pre s1. turn u s = (pre @ fst (manageRetries u s1), snd (manageRetries u s1))
           \<and> events_of pre = [] \<and> (\<forall>r \<in> set (posts_of pre). chunk_number r = chunkCount s)
           \<and> chunkCount s1 = chunkCount s \<and> retriesCount s1 = retriesCount s"
proof -
  have tr: "transient (server u (posts s))" using assms by blast
  show ?thesis
  proof (cases "getChunk u s")
    case (Pair res s1)
    have s1: "chunkCount s1 = chunkCount s" "retriesCount s1 = retriesCount s" "posts s1 = posts s"
      using Pair by (auto simp: getChunk_def fs_read_def Let_def split: if_splits)
    show ?thesis
    proof (cases res)
      case (Inl err)
      then have "turn u s = ([] @ fst (manageRetries u s1), snd (manageRetries u s1))"
        using Pair by (simp add: turn_def)
      then show ?thesis using s1 by (intro exI [of _ "[]"] exI [of _ s1]) simp
    next
      case (Inr out)
      show ?thesis
      proof (cases "sendChunk u s1 out")
        case (Inl err)
        then have "turn u s = ([] @ fst (manageRetries u s1), snd (manageRetries u s1))"
          using Pair Inr by (simp add: turn_def)
        then show ?thesis using s1 by (intro exI [of _ "[]"] exI [of _ s1]) simp
      next
        case req: (Inr req)
        let ?s2 = "s1\<lparr>posts := posts s1 + 1\<rparr>"
        have n: "chunk_number req = chunkCount s"
          using req s1 by (auto simp: sendChunk_def split: option.splits if_splits)
        have "turn u s = ([Post req] @ fst (manageRetries u ?s2), snd (manageRetries u ?s2))"
          using Pair Inr req tr s1
          by (auto simp: turn_def fetch_def transient_def on_response_def
              split: outcome.splits prod.splits)
        then show ?thesis using s1 n
          by (intro exI [of _ "[Post req]"] exI [of _ ?s2]) simp
      qed
    qed
  qed
qed

lemma transient_run:
  assumes "\<forall>n. transient (server u n)"
  shows "events_of (fst (sendChunks u s)) =
           notices u (chunkCount s) (retriesCount s) @ [Error (no_retries_message (chunkCount s))]
         \<and> (\<forall>r \<in> set (posts_of (fst (sendChunks u s))). chunk_number r = chunkCount s)"
  using assms
proof (induction u s rule: sendChunks.induct)
  case (1 u s)
  from transient_turn [OF "1.prems"] obtain pre s1 where
    t: "turn u s = (pre @ fst (manageRetries u s1), snd (manageRetries u s1))" and
    e: "events_of pre = []" and
    p: "\<forall>r \<in> set (posts_of pre). chunk_number r = chunkCount s" and
    c: "chunkCount s1 = chunkCount s" and r: "retriesCount s1 = retriesCount s"
    by blast
  show ?case
  proof (cases "retriesCount s < retries u")
    case True
    let ?s' = "s1\<lparr>retriesCount := Suc (retriesCount s1)\<rparr>"
    let ?e = "FileRetry (retry_message (chunkCount s) (retries u - Suc (retriesCount s)))
               (chunkCount s) (retries u - Suc (retriesCount s))"
    have t': "turn u s = (pre @ [Emit ?e], ?s', Continue)"
      using t True c r by (simp add: manageRetries_Continue)
    have "events_of (fst (sendChunks u ?s')) =
            notices u (chunkCount ?s') (retriesCount ?s') @
            [Error (no_retries_message (chunkCount ?s'))]
          \<and> (\<forall>r \<in> set (posts_of (fst (sendChunks u ?s'))). chunk_number r = chunkCount ?s')"
      using "1.IH" [OF t' [symmetric] refl refl "1.prems"] .
    then show ?thesis
      using True c r e p by (auto simp: sendChunks_Continue [OF t'] notices_step)
  next
    case False
    then have "turn u s = (pre @ [Emit (Error (no_retries_message (chunkCount s)))],
                 s1\<lparr>retriesCount := Suc (retriesCount s1)\<rparr>, Stop)"
      using t c r by (simp add: manageRetries_Stop)
    then show ?thesis
      using False e p by (simp add: sendChunks_Stop notices_done)
  qed
qed

text \<open>
  Claim C5. When every answer of the server is a transient failure and no retry has been
  counted yet, the session emits exactly \<open>retries\<close> \<open>fileRetry\<close> events, then exactly one
  \<open>error\<close> event and nothing else, and every request it sends carries the index of the
  chunk that was current at the start: no later index is ever sent.
\<close>

theorem unbroken_transient_failures:
  assumes "\<forall>n. transient (server u n)" and "retriesCount s = 0"
  shows "events_of (fst (sendChunks u s)) =
           map (\<lambda>i. FileRetry (retry_message (chunkCount s) (retries u - i)) (chunkCount s)
                       (retries u - i)) [1 ..< Suc (retries u)]
           @ [Error (no_retries_message (chunkCount s))]
         \<and> length (filter is_retry (events_of (fst (sendChunks u s)))) = retries u
         \<and> (\<forall>r \<in> set (posts_of (fst (sendChunks u s))). chunk_number r = chunkCount s)"
proof -
  have r: "filter is_retry (notices u k n) = notices u k n" for k n
    by (simp add: notices_def is_retry_def)
  show ?thesis
    using transient_run [OF assms(1), of s] assms(2)
    by (simp add: r length_notices is_retry_def) (simp add: notices_def)
qed

theorem unbroken_transient_failures_witness:
  "events_of (fst (sendChunks
     \<lparr>file_bytes = [1, 2, 3], postParams = Some [], chunkSizeBytes = 10485760, retries = 2,
      totalChunks = 1, server = (\<lambda>n. Response 503)\<rparr>
     \<lparr>chunkCount = 0, retriesCount = 0, fd_open = True, fd_pos = 0, posts = 0\<rparr>))
   = [FileRetry ''An error occured uploading chunk 0. 1 retries left'' 0 1,
      FileRetry ''An error occured uploading chunk 0. 0 retries left'' 0 0,
      Error ''An error occured uploading chunk 0. No more retries, stopping upload'']"
  using unbroken_transient_failures [of
     "\<lparr>file_bytes = [1, 2, 3], postParams = Some [], chunkSizeBytes = 10485760, retries = 2,
      totalChunks = 1, server = (\<lambda>n. Response 503)\<rparr>"
     "\<lparr>chunkCount = 0, retriesCount = 0, fd_open = True, fd_pos = 0, posts = 0\<rparr>"]
  by (simp add: transient_def upt_conv_Cons message_eval)

subsection \<open>The retry counter over a whole session\<close>

lemma getChunk_counters:
  assumes "getChunk u s = (res, s1)"
  shows "chunkCount s1 = chunkCount s" and "retriesCount s1 = retriesCount s"
    and "posts s1 = posts s"
  using assms by (auto simp: getChunk_def fs_read_def Let_def split: if_splits)

lemma manageRetries_retries:
  assumes "manageRetries u s = (acts, s', nx)"
  shows "(nx = Continue \<longrightarrow>
            length (filter is_retry (events_of acts)) + (retries u - retriesCount s')
              \<le> retries u - retriesCount s)
         \<and> (nx = Stop \<longrightarrow> filter is_retry (events_of acts) = [])
         \<and> retriesCount s \<le> retriesCount s'"
  using assms by (auto simp: manageRetries_def Let_def is_retry_def split: if_splits)

lemma on_response_retries:
  assumes "on_response u s st = (acts, s', nx)"
  shows "(nx = Continue \<longrightarrow>
            length (filter is_retry (events_of acts)) + (retries u - retriesCount s')
              \<le> retries u - retriesCount s)
         \<and> (nx = Stop \<longrightarrow> filter is_retry (events_of acts) = [])
         \<and> retriesCount s \<le> retriesCount s'"
proof (cases "st = 200 \<or> st = 201 \<or> st = 204")
  case True
  then show ?thesis using assms
    by (auto simp: on_response_def Let_def is_retry_def split: if_splits)
next
  case False
  show ?thesis
  proof (cases "st \<in> set [408, 502, 503, 504]")
    case True
    with False assms have "manageRetries u s = (acts, s', nx)"
      by (simp add: on_response_def)
    then show ?thesis by (rule manageRetries_retries)
  next
    case n: False
    with False assms show ?thesis
      by (auto simp: on_response_def is_retry_def)
  qed
qed

lemma turn_retries:
  assumes "turn u s = (acts, s', nx)"
  shows "(nx = Continue \<longrightarrow>
            length (filter is_retry (events_of acts)) + (retries u - retriesCount s')
              \<le> retries u - retriesCount s)
         \<and> (nx = Stop \<longrightarrow> filter is_retry (events_of acts) = [])
         \<and> retriesCount s \<le> retriesCount s'"
proof (cases "getChunk u s")
  case (Pair res s1)
  note r = getChunk_counters(2) [OF Pair]
  show ?thesis
  proof (cases res)
    case (Inl err)
    with Pair assms have "manageRetries u s1 = (acts, s', nx)" by (simp add: turn_def)
    from manageRetries_retries [OF this] r show ?thesis by simp
  next
    case (Inr out)
    show ?thesis
    proof (cases "sendChunk u s1 out")
      case (Inl err)
      with Pair Inr assms have "manageRetries u s1 = (acts, s', nx)" by (simp add: turn_def)
      from manageRetries_retries [OF this] r show ?thesis by simp
    next
      case req: (Inr req)
      let ?s2 = "s1\<lparr>posts := posts s1 + 1\<rparr>"
      show ?thesis
      proof (cases "server u (posts s1)")
        case Rejected
        obtain a where a: "manageRetries u ?s2 = (a, s', nx)" and "acts = Post req # a"
          using Pair Inr req Rejected assms
          by (auto simp: turn_def fetch_def split: prod.splits)
        with manageRetries_retries [OF a] r show ?thesis by simp
      next
        case (Response st)
        obtain a where a: "on_response u ?s2 st = (a, s', nx)" and "acts = Post req # a"
          using Pair Inr req Response assms
          by (auto simp: turn_def fetch_def split: prod.splits)
        with on_response_retries [OF a] r show ?thesis by simp
      qed
    qed
  qed
qed

lemma retries_bounded:
  "length (filter is_retry (events_of (fst (sendChunks u s)))) \<le> retries u - retriesCount s
   \<and> retriesCount s \<le> retriesCount (snd (sendChunks u s))"
proof (induction u s rule: sendChunks.induct)
  case (1 u s)
  obtain acts s' nx where t: "turn u s = (acts, s', nx)"
    by (cases "turn u s") auto
  show ?case
  proof (cases nx)
    case Continue
    with t have t': "turn u s = (acts, s', Continue)" by simp
    have ih: "length (filter is_retry (events_of (fst (sendChunks u s')))) \<le> retries u - retriesCount s'
       \<and> retriesCount s' \<le> retriesCount (snd (sendChunks u s'))"
      using "1.IH" [OF t' [symmetric] refl refl] .
    from turn_retries [OF t'] ih show ?thesis
      by (simp add: sendChunks_Continue [OF t'])
  next
    case Stop
    with t have t': "turn u s = (acts, s', Stop)" by simp
    from turn_retries [OF t'] show ?thesis
      by (simp add: sendChunks_Stop [OF t'])
  qed
qed

text \<open>
  Claim C2, as stated, fails: the counter is not reset when a chunk is accepted. With a
  budget of one retry, chunk 0 fails once and is then accepted; the first failure of chunk 1
  ends the session, because the counter still holds the failure of chunk 0.
\<close>

theorem retry_counter_not_reset:
  "constructor
     (\<lambda>path. Readable (replicate 10485760 1 @ replicate 10485760 2 @ replicate 10485760 3))
     (\<lambda>n. if n = 1 then Response 200 else Response 503)
     \<lparr>p_endpoint = ''http://localhost/upload'', p_file = ''/tmp/thirty-megabytes'',
      p_postParams = Some [], p_chunkSize = 10, p_retries = 1\<rparr>
   = Inr (\<lparr>file_bytes = replicate 10485760 1 @ replicate 10485760 2 @ replicate 10485760 3,
           postParams = Some [], chunkSizeBytes = 10485760, retries = 1, totalChunks = 3,
           server = (\<lambda>n. if n = 1 then Response 200 else Response 503)\<rparr>,
          [Post \<lparr>chunk_number = 0, form = [FileField (replicate 10485760 1)]\<rparr>,
           Emit (FileRetry (retry_message 0 0) 0 0),
           Post \<lparr>chunk_number = 0, form = [FileField (replicate 10485760 2)]\<rparr>,
           Emit (Progress (Percent 33)),
           Post \<lparr>chunk_number = 1, form = [FileField (replicate 10485760 3)]\<rparr>,
           Emit (Error (no_retries_message 1))],
          \<lparr>chunkCount = 1, retriesCount = 2, fd_open = True, fd_pos = 31457280, posts = 3\<rparr>)"
  by (simp add: start_eval run_eval ceiling_div_nat ceiling_div_numeral percent_eval)

lemma turn_retriesCount:
  "retriesCount (fst (snd (turn u s))) =
     (if accepted_turn u s \<or> permanent_turn u s then retriesCount s else retriesCount s + 1)"
proof (cases "getChunk u s")
  case (Pair res s1)
  note r = getChunk_counters(2) [OF Pair]
  show ?thesis
  proof (cases res)
    case (Inl err)
    then show ?thesis using Pair r
      by (simp add: accepted_turn_def permanent_turn_def turn_def manageRetries_def Let_def)
  next
    case (Inr out)
    show ?thesis
    proof (cases "sendChunk u s1 out")
      case (Inl err)
      then show ?thesis using Pair Inr r
        by (simp add: accepted_turn_def permanent_turn_def turn_def manageRetries_def Let_def)
    next
      case req: (Inr req)
      show ?thesis
      proof (cases "server u (posts s1)")
        case Rejected
        then show ?thesis using Pair Inr req r
          by (simp add: accepted_turn_def permanent_turn_def turn_def fetch_def
              manageRetries_def Let_def)
      next
        case (Response st)
        show ?thesis
        proof (cases "st = 200 \<or> st = 201 \<or> st = 204")
          case True
          then show ?thesis using Pair Inr req Response r
            by (auto simp: accepted_turn_def permanent_turn_def turn_def fetch_def
                on_response_def Let_def)
        next
          case False
          show ?thesis
          proof (cases "st \<in> set [408, 502, 503, 504]")
            case True
            with False show ?thesis using Pair Inr req Response r
              by (simp add: accepted_turn_def permanent_turn_def turn_def fetch_def
                  on_response_def manageRetries_def Let_def)
          next
            case n: False
            with False show ?thesis using Pair Inr req Response r
              by (simp add: accepted_turn_def permanent_turn_def turn_def fetch_def
                  on_response_def)
          qed
        qed
      qed
    qed
  qed
qed

text \<open>
  Claim C2, amended. Every failure that goes to the retry policy increments the retry
  counter by one, whatever chunk it belongs to: each call of \<open>_manageRetries\<close> does, and so
  does every turn that ends neither with an accepted chunk nor with a permanent status (a
  408, 502, 503 or 504 answer, a rejected request, a failed read, a request that cannot be
  built). An accepted chunk leaves the counter unchanged, and so does a permanent status,
  which ends the session. The counter is never reset: it never decreases over a turn or
  over a session. So the budget bounds the number of \<open>fileRetry\<close> events of the whole
  session, whatever chunks they belong to.
\<close>

theorem retry_budget_spans_session:
  "retriesCount (fst (snd (manageRetries u s))) = retriesCount s + 1
   \<and> (\<not> accepted_turn u s \<and> \<not> permanent_turn u s \<longrightarrow>
        retriesCount (fst (snd (turn u s))) = retriesCount s + 1)
   \<and> (accepted_turn u s \<or> permanent_turn u s \<longrightarrow>
        retriesCount (fst (snd (turn u s))) = retriesCount s)
   \<and> retriesCount (fst (snd (on_response u s 200))) = retriesCount s
   \<and> retriesCount (fst (snd (on_response u s 201))) = retriesCount s
   \<and> retriesCount (fst (snd (on_response u s 204))) = retriesCount s
   \<and> retriesCount s \<le> retriesCount (fst (snd (turn u s)))
   \<and> retriesCount s \<le> retriesCount (snd (sendChunks u s))
   \<and> length (filter is_retry (events_of (fst (sendChunks u s)))) \<le> retries u - retriesCount s"
proof -
  have m: "retriesCount (fst (snd (manageRetries u s))) = retriesCount s + 1"
    by (simp add: manageRetries_def Let_def)
  have t: "retriesCount s \<le> retriesCount (fst (snd (turn u s)))"
    by (simp add: turn_retriesCount)
  from m t show ?thesis
    using retries_bounded [of u s] by (simp add: turn_retriesCount on_response_def Let_def)
qed

theorem retry_budget_spans_session_witness:
  "retriesCount (fst (snd (turn
     \<lparr>file_bytes = [1, 2, 3], postParams = Some [], chunkSizeBytes = 10485760, retries = 5,
      totalChunks = 1, server = (\<lambda>n. Response 503)\<rparr>
     \<lparr>chunkCount = 0, retriesCount = 0, fd_open = True, fd_pos = 0, posts = 0\<rparr>))) = 1
   \<and> retriesCount (fst (snd (turn
     \<lparr>file_bytes = [1, 2, 3], postParams = Some [], chunkSizeBytes = 10485760, retries = 5,
      totalChunks = 1, server = (\<lambda>n. Response 200)\<rparr>
     \<lparr>chunkCount = 0, retriesCount = 4, fd_open = True, fd_pos = 0, posts = 0\<rparr>))) = 4"
  using retry_budget_spans_session [of
     "\<lparr>file_bytes = [1, 2, 3], postParams = Some [], chunkSizeBytes = 10485760, retries = 5,
      totalChunks = 1, server = (\<lambda>n. Response 503)\<rparr>"
     "\<lparr>chunkCount = 0, retriesCount = 0, fd_open = True, fd_pos = 0, posts = 0\<rparr>"]
    retry_budget_spans_session [of
     "\<lparr>file_bytes = [1, 2, 3], postParams = Some [], chunkSizeBytes = 10485760, retries = 5,
      totalChunks = 1, server = (\<lambda>n. Response 200)\<rparr>"
     "\<lparr>chunkCount = 0, retriesCount = 4, fd_open = True, fd_pos = 0, posts = 0\<rparr>"]
  by (simp add: accepted_turn_def permanent_turn_def getChunk_def fs_read_def sendChunk_def)

subsection \<open>What a retry sends\<close>

text \<open>
  Claim C3 on the code. A file of three chunks of 10 MB, holding the bytes 1, 2 and 3, is
  sent to a server that answers 503 twice and 200 afterwards. The three requests all carry
  the index 0, and their bodies are the first, the second and the third chunk of the file:
  each read advances the descriptor, and a retry reads again without going back.
\<close>

theorem retry_sends_the_next_bytes:
  "constructor
     (\<lambda>path. Readable (replicate 10485760 1 @ replicate 10485760 2 @ replicate 10485760 3))
     (\<lambda>n. if n < 2 then Response 503 else Response 200)
     \<lparr>p_endpoint = ''http://localhost/upload'', p_file = ''/tmp/thirty-megabytes'',
      p_postParams = Some [], p_chunkSize = 10, p_retries = 0\<rparr>
   = Inr (\<lparr>file_bytes = replicate 10485760 1 @ replicate 10485760 2 @ replicate 10485760 3,
           postParams = Some [], chunkSizeBytes = 10485760, retries = 5, totalChunks = 3,
           server = (\<lambda>n. if n < 2 then Response 503 else Response 200)\<rparr>,
          [Post \<lparr>chunk_number = 0, form = [FileField (replicate 10485760 1)]\<rparr>,
           Emit (FileRetry (retry_message 0 4) 0 4),
           Post \<lparr>chunk_number = 0, form = [FileField (replicate 10485760 2)]\<rparr>,
           Emit (FileRetry (retry_message 0 3) 0 3),
           Post \<lparr>chunk_number = 0, form = [FileField (replicate 10485760 3)]\<rparr>,
           Emit (Progress (Percent 33)),
           Emit (FileRetry (retry_message 1 2) 1 2),
           Emit (FileRetry (retry_message 1 1) 1 1),
           Emit (FileRetry (retry_message 1 0) 1 0),
           Emit (Error (no_retries_message 1))],
          \<lparr>chunkCount = 1, retriesCount = 6, fd_open = False, fd_pos = 31457280, posts = 3\<rparr>)"
  by (simp add: start_eval run_eval ceiling_div_nat ceiling_div_numeral percent_eval)

subsection \<open>The last chunk and the post parameters\<close>

text \<open>
  Claim C4 on the code. A file of 20 MB with chunks of 10 MB is sent in two requests of
  10 MB each; neither read is short, so neither request carries the post parameters.
\<close>

theorem exact_multiple_never_sends_postParams:
  "constructor (\<lambda>path. Readable (replicate 20971520 0)) (\<lambda>n. Response 200)
     \<lparr>p_endpoint = ''http://localhost/upload'', p_file = ''/tmp/twenty-megabytes'',
      p_postParams = Some [(''name'', ''report'')], p_chunkSize = 10, p_retries = 0\<rparr>
   = Inr (\<lparr>file_bytes = replicate 20971520 0, postParams = Some [(''name'', ''report'')],
           chunkSizeBytes = 10485760, retries = 5, totalChunks = 2,
           server = (\<lambda>n. Response 200)\<rparr>,
          [Post \<lparr>chunk_number = 0, form = [FileField (replicate 10485760 0)]\<rparr>,
           Emit (Progress (Percent 50)),
           Post \<lparr>chunk_number = 1, form = [FileField (replicate 10485760 0)]\<rparr>,
           Emit Finish,
           Emit (Progress (Percent 100))],
          \<lparr>chunkCount = 2, retriesCount = 0, fd_open = True, fd_pos = 20971520, posts = 2\<rparr>)"
  by (simp add: start_eval run_eval ceiling_div_nat ceiling_div_numeral percent_eval)

subsection \<open>A file that cannot be opened\<close>

text \<open>
  Claim C8 on the code. For a path where there is no file, \<open>statSync\<close> throws in the
  constructor, before \<open>_startSending\<close> is reached. For a file that exists and cannot be
  read, the constructor returns and the session is the one \<open>error\<close> event.
\<close>

theorem missing_file_throws:
  "constructor (\<lambda>path. Missing) (\<lambda>n. Response 200)
     \<lparr>p_endpoint = ''http://localhost/upload'', p_file = ''/no/such/file'',
      p_postParams = Some [], p_chunkSize = 0, p_retries = 0\<rparr>
   = Inl ENOENT
   \<and> constructor (\<lambda>path. Unreadable [1, 2, 3]) (\<lambda>n. Response 200)
     \<lparr>p_endpoint = ''http://localhost/upload'', p_file = ''/root/secret'',
      p_postParams = Some [], p_chunkSize = 0, p_retries = 0\<rparr>
   = Inr (\<lparr>file_bytes = [1, 2, 3], postParams = Some [], chunkSizeBytes = 10485760,
           retries = 5, totalChunks = 1, server = (\<lambda>n. Response 200)\<rparr>,
          [Emit (Error ''Failed starting to sending chunks'')],
          initial)"
  by (simp add: start_eval run_eval ceiling_div_nat ceiling_div_numeral percent_eval)

subsection \<open>Classifying the response\<close>

text \<open>
  Claim C1. Whenever a turn issues a request and the server answers with a status: 200, 201
  and 204 accept the chunk (the index advances, and the session goes on or finishes); 408,
  502, 503 and 504 call the retry policy; every other status ends the session at once with
  one \<open>error\<close> event whose message names the status, with no \<open>fileRetry\<close> event and the
  retry counter unchanged, whatever budget is left.
\<close>

theorem status_classification:
  assumes "getChunk u s = (Inr out, s1)"
      and "sendChunk u s1 out = Inr req"
      and "server u (posts s1) = Response st"
  shows "(st = 200 \<or> st = 201 \<or> st = 204 \<longrightarrow>
            turn u s =
              (if chunkCount s1 + 1 < totalChunks u
               then ([Post req,
                      Emit (Progress (percentProgress u
                         (s1\<lparr>posts := posts s1 + 1, chunkCount := chunkCount s1 + 1\<rparr>)))],
                     s1\<lparr>posts := posts s1 + 1, chunkCount := chunkCount s1 + 1\<rparr>, Continue)
               else ([Post req, Emit Finish,
                      Emit (Progress (percentProgress u
                         (s1\<lparr>posts := posts s1 + 1, chunkCount := chunkCount s1 + 1\<rparr>)))],
                     s1\<lparr>posts := posts s1 + 1, chunkCount := chunkCount s1 + 1\<rparr>, Stop)))
       \<and> (st = 408 \<or> st = 502 \<or> st = 503 \<or> st = 504 \<longrightarrow>
            turn u s =
              (Post req # fst (manageRetries u (s1\<lparr>posts := posts s1 + 1\<rparr>)),
               snd (manageRetries u (s1\<lparr>posts := posts s1 + 1\<rparr>))))
       \<and> (st \<notin> {200, 201, 204, 408, 502, 503, 504} \<longrightarrow>
            sendChunks u s =
              ([Post req, Emit (Error (status_message st))], s1\<lparr>posts := posts s1 + 1\<rparr>)
            \<and> filter is_retry (events_of (fst (sendChunks u s))) = []
            \<and> retriesCount (snd (sendChunks u s)) = retriesCount s)"
proof -
  let ?s2 = "s1\<lparr>posts := posts s1 + 1\<rparr>"
  have t: "turn u s = (case on_response u ?s2 st of (acts, s3, nx) \<Rightarrow> (Post req # acts, s3, nx))"
    using assms by (simp add: turn_def fetch_def)
  have r: "retriesCount s1 = retriesCount s"
    using assms(1) by (auto simp: getChunk_def fs_read_def Let_def split: if_splits)
  have a: "st = 200 \<or> st = 201 \<or> st = 204 \<Longrightarrow> ?thesis"
    using t by (auto simp: on_response_def Let_def)
  have b: "st = 408 \<or> st = 502 \<or> st = 503 \<or> st = 504 \<Longrightarrow> ?thesis"
    using t by (auto simp: on_response_def split: prod.splits)
  have c: "st \<notin> {200, 201, 204, 408, 502, 503, 504} \<Longrightarrow> ?thesis"
  proof -
    assume n: "st \<notin> {200, 201, 204, 408, 502, 503, 504}"
    then have "turn u s = ([Post req, Emit (Error (status_message st))], ?s2, Stop)"
      using t by (simp add: on_response_def)
    then have "sendChunks u s = ([Post req, Emit (Error (status_message st))], ?s2)"
      by (rule sendChunks_Stop)
    then show ?thesis using n r by (simp add: is_retry_def)
  qed
  from a b c show ?thesis by blast
qed

theorem status_classification_witness:
  "sendChunks
     \<lparr>file_bytes = [1, 2, 3], postParams = Some [], chunkSizeBytes = 10485760, retries = 5,
      totalChunks = 1, server = (\<lambda>n. Response 403)\<rparr>
     \<lparr>chunkCount = 0, retriesCount = 0, fd_open = True, fd_pos = 0, posts = 0\<rparr>
   = ([Post \<lparr>chunk_number = 0, form = [FileField [1, 2, 3]]\<rparr>,
       Emit (Error ''Server responded with 403. Stopping upload'')],
      \<lparr>chunkCount = 0, retriesCount = 0, fd_open = True, fd_pos = 3, posts = 1\<rparr>)"
proof -
  let ?u = "\<lparr>file_bytes = [1, 2, 3], postParams = Some [], chunkSizeBytes = 10485760,
      retries = 5, totalChunks = 1, server = (\<lambda>n. Response 403)\<rparr>"
  let ?s = "\<lparr>chunkCount = 0, retriesCount = 0, fd_open = True, fd_pos = 0, posts = 0\<rparr>"
  let ?s1 = "\<lparr>chunkCount = 0, retriesCount = 0, fd_open = True, fd_pos = 3, posts = 0\<rparr>"
  let ?out = "Some \<lparr>data = [1, 2, 3], lastChunk = True\<rparr>"
  let ?req = "\<lparr>chunk_number = 0, form = [FileField [1, 2, 3]]\<rparr>"
  have g: "getChunk ?u ?s = (Inr ?out, ?s1)"
    by (simp add: getChunk_def fs_read_def)
  have q: "sendChunk ?u ?s1 ?out = Inr ?req"
    by (simp add: sendChunk_def)
  have v: "server ?u (posts ?s1) = Response 403"
    by simp
  from status_classification [OF g q v] show ?thesis
    by (simp add: message_eval)
qed

subsection \<open>Progress events\<close>

text \<open>
  Claim C7, as stated, fails: a \<open>progress\<close> event is emitted for the last accepted chunk
  too, and it comes after \<open>finish\<close>. A file of one chunk, accepted by the server:
\<close>

theorem progress_after_finish:
  "constructor (\<lambda>path. Readable [1, 2, 3]) (\<lambda>n. Response 200)
     \<lparr>p_endpoint = ''http://localhost/upload'', p_file = ''/tmp/three-bytes'',
      p_postParams = Some [], p_chunkSize = 0, p_retries = 0\<rparr>
   = Inr (\<lparr>file_bytes = [1, 2, 3], postParams = Some [], chunkSizeBytes = 10485760,
           retries = 5, totalChunks = 1, server = (\<lambda>n. Response 200)\<rparr>,
          [Post \<lparr>chunk_number = 0, form = [FileField [1, 2, 3]]\<rparr>,
           Emit Finish,
           Emit (Progress (Percent 100))],
          \<lparr>chunkCount = 1, retriesCount = 0, fd_open = True, fd_pos = 3, posts = 1\<rparr>)"
  by (simp add: start_eval run_eval ceiling_div_nat ceiling_div_numeral percent_eval)

text \<open>
  Claim C7, amended. A turn emits a \<open>progress\<close> event exactly when its request is accepted,
  never on a failure or a retry. In a session of fewer than \<open>2\<^sup>5\<^sup>3\<close> chunks, for a chunk whose
  index is below \<open>totalChunks\<close>, the event carries \<open>Math.round((100 / totalChunks) * chunkCount)\<close>
  for the index after the increment, computed on doubles: the quotient is rounded to a
  double, then the product, then the nearest integer is taken. This is not always the
  rounded value of \<open>100 * chunkCount / totalChunks\<close>: for chunk 145 of 232 the exact value is
  62.5 and the event carries 62. The event is emitted for every accepted chunk, the last one
  included: there the turn emits \<open>finish\<close> first and \<open>progress\<close> right after it, and these
  two are the last events of the session.
\<close>

theorem progress_on_every_accepted_chunk:
  "(accepted_turn u s \<and> chunkCount s < totalChunks u \<and> totalChunks u < 2 ^ 53 \<longrightarrow>
      events_of (fst (turn u s)) =
        (if chunkCount s + 1 < totalChunks u
         then [Progress (Percent (round
                 (fl (fl (100 / of_nat (totalChunks u)) * of_nat (chunkCount s + 1)))))]
         else [Finish,
               Progress (Percent (round
                 (fl (fl (100 / of_nat (totalChunks u)) * of_nat (chunkCount s + 1)))))])
      \<and> (\<not> chunkCount s + 1 < totalChunks u \<longrightarrow>
           events_of (fst (sendChunks u s)) = events_of (fst (turn u s))))
   \<and> (\<not> accepted_turn u s \<longrightarrow> filter is_progress (events_of (fst (turn u s))) = [])"
proof (cases "getChunk u s")
  case (Pair res s1)
  have c: "chunkCount s1 = chunkCount s" if "res = Inr out" for out
    using Pair by (auto simp: getChunk_def fs_read_def Let_def split: if_splits)
  show ?thesis
  proof (cases res)
    case (Inl err)
    then show ?thesis using Pair
      by (simp add: accepted_turn_def turn_def manageRetries_def is_progress_def Let_def)
  next
    case (Inr out)
    show ?thesis
    proof (cases "sendChunk u s1 out")
      case (Inl err)
      then show ?thesis using Pair Inr
        by (simp add: accepted_turn_def turn_def manageRetries_def is_progress_def Let_def)
    next
      case req: (Inr req)
      show ?thesis
      proof (cases "server u (posts s1)")
        case Rejected
        then show ?thesis using Pair Inr req
          by (simp add: accepted_turn_def turn_def fetch_def manageRetries_def is_progress_def Let_def)
      next
        case (Response st)
        show ?thesis
        proof (cases "st = 200 \<or> st = 201 \<or> st = 204")
          case False
          then show ?thesis using Pair Inr req Response
            by (simp add: accepted_turn_def turn_def fetch_def on_response_def manageRetries_def
                is_progress_def Let_def)
        next
          case True
          let ?s3 = "s1\<lparr>posts := posts s1 + 1, chunkCount := chunkCount s1 + 1\<rparr>"
          have a: "accepted_turn u s"
            using Pair Inr req Response True by (simp add: accepted_turn_def)
          have p: "percentProgress u ?s3 =
                   Percent (round
                     (fl (fl (100 / of_nat (totalChunks u)) * of_nat (chunkCount s + 1))))"
            if "chunkCount s < totalChunks u"
            using that c [OF Inr] by (simp add: percentProgress_def percent_of_def)
          have t: "turn u s =
              (if chunkCount s + 1 < totalChunks u
               then ([Post req, Emit (Progress (percentProgress u ?s3))], ?s3, Continue)
               else ([Post req, Emit Finish, Emit (Progress (percentProgress u ?s3))], ?s3, Stop))"
            using Pair Inr req Response True c [OF Inr]
            by (auto simp: turn_def fetch_def on_response_def Let_def)
          show ?thesis
          proof (cases "chunkCount s + 1 < totalChunks u")
            case True
            then show ?thesis using a t p by simp
          next
            case False
            with t have "turn u s =
               ([Post req, Emit Finish, Emit (Progress (percentProgress u ?s3))], ?s3, Stop)"
              by simp
            from this sendChunks_Stop [OF this] show ?thesis using a p False by simp
          qed
        qed
      qed
    qed
  qed
qed

theorem progress_on_every_accepted_chunk_witness:
  "events_of (fst (turn
     \<lparr>file_bytes = replicate 243269632 0, postParams = Some [], chunkSizeBytes = 1048576,
      retries = 5, totalChunks = 232, server = (\<lambda>n. Response 200)\<rparr>
     \<lparr>chunkCount = 144, retriesCount = 0, fd_open = True, fd_pos = 150994944, posts = 144\<rparr>))
   = [Progress (Percent 62)]
   \<and> round (100 * of_nat 145 / of_nat 232 :: rat) = 63"
proof -
  let ?u = "\<lparr>file_bytes = replicate 243269632 0, postParams = Some [],
      chunkSizeBytes = 1048576, retries = 5, totalChunks = 232,
      server = (\<lambda>n. Response 200)\<rparr>"
  let ?s = "\<lparr>chunkCount = 144, retriesCount = 0, fd_open = True, fd_pos = 150994944,
      posts = 144\<rparr>"
  have a: "accepted_turn ?u ?s \<and> chunkCount ?s < totalChunks ?u \<and> totalChunks ?u < 2 ^ 53"
    by (simp add: accepted_turn_def getChunk_def fs_read_def sendChunk_def)
  have n: "chunkCount ?s + 1 < totalChunks ?u"
    by simp
  have "Percent (round (fl (fl (100 / of_nat (totalChunks ?u)) * of_nat (chunkCount ?s + 1))))
        = percent_of 232 145"
    by (simp add: percent_of_def)
  then have v: "Percent (round
      (fl (fl (100 / of_nat (totalChunks ?u)) * of_nat (chunkCount ?s + 1)))) = Percent 62"
    by (simp only: percent_values)
  from progress_on_every_accepted_chunk [of ?u ?s] a
  have "events_of (fst (turn ?u ?s)) =
        (if chunkCount ?s + 1 < totalChunks ?u
         then [Progress (Percent (round
                 (fl (fl (100 / of_nat (totalChunks ?u)) * of_nat (chunkCount ?s + 1)))))]
         else [Finish,
               Progress (Percent (round
                 (fl (fl (100 / of_nat (totalChunks ?u)) * of_nat (chunkCount ?s + 1)))))])"
    by (rule conjunct1 [THEN mp, THEN conjunct1])
  then have e: "events_of (fst (turn ?u ?s)) = [Progress (Percent 62)]"
    by (simp only: n v if_True)
  have r: "round (100 * of_nat 145 / of_nat 232 :: rat) = 63"
    by code_simp
  from e r show ?thesis by (rule conjI)
qed

subsection \<open>Sessions without post parameters\<close>

lemma getChunk_pos:
  assumes "getChunk u s = (res, s1)"
  shows "fd_pos s \<le> fd_pos s1"
  using assms by (auto simp: getChunk_def fs_read_def Let_def split: if_splits)

lemma getChunk_full:
  assumes "getChunk u s = (Inr (Some ch), s1)" and "\<not> lastChunk ch"
  shows "fd_pos s1 = fd_pos s + chunkSizeBytes u"
    and "fd_pos s + chunkSizeBytes u \<le> length (file_bytes u)"
    and "0 < chunkSizeBytes u"
  using assms by (auto simp: getChunk_def fs_read_def Let_def min_def split: if_splits)

lemma sendChunk_without_postParams:
  assumes "postParams u = None" and "sendChunk u s1 out = Inr req"
  shows "\<exists>ch. out = Some ch \<and> \<not> lastChunk ch"
  using assms by (auto simp: sendChunk_def split: option.splits if_splits)

lemma manageRetries_no_finish:
  assumes "manageRetries u s = (acts, s', nx)"
  shows "Finish \<notin> set (events_of acts)" and "chunkCount s' = chunkCount s"
    and "fd_pos s' = fd_pos s"
    and "events_of acts \<noteq> []"
    and "nx = Stop \<longrightarrow> (\<exists>m. last (events_of acts) = Error m)"
  using assms by (auto simp: manageRetries_def Let_def split: if_splits)

lemma on_response_ends:
  assumes "on_response u s st = (acts, s', nx)"
  shows "events_of acts \<noteq> []"
    and "nx = Stop \<longrightarrow> Finish \<in> set (events_of acts) \<or> (\<exists>m. last (events_of acts) = Error m)"
proof -
  have "events_of acts \<noteq> [] \<and>
    (nx = Stop \<longrightarrow> Finish \<in> set (events_of acts) \<or> (\<exists>m. last (events_of acts) = Error m))"
  proof (cases "st = 200 \<or> st = 201 \<or> st = 204")
    case True
    then show ?thesis using assms by (auto simp: on_response_def Let_def split: if_splits)
  next
    case False
    show ?thesis
    proof (cases "st \<in> set [408, 502, 503, 504]")
      case True
      with False assms have "manageRetries u s = (acts, s', nx)" by (simp add: on_response_def)
      from manageRetries_no_finish(4,5) [OF this] show ?thesis by simp
    next
      case n: False
      with False assms show ?thesis by (auto simp: on_response_def)
    qed
  qed
  then show "events_of acts \<noteq> []"
    and "nx = Stop \<longrightarrow> Finish \<in> set (events_of acts) \<or> (\<exists>m. last (events_of acts) = Error m)"
    by auto
qed

lemma turn_ends:
  assumes "turn u s = (acts, s', nx)"
  shows "events_of acts \<noteq> [] \<and>
    (nx = Stop \<longrightarrow> Finish \<in> set (events_of acts) \<or> (\<exists>m. last (events_of acts) = Error m))"
proof (cases "getChunk u s")
  case (Pair res s1)
  show ?thesis
  proof (cases res)
    case (Inl err)
    with Pair assms have "manageRetries u s1 = (acts, s', nx)" by (simp add: turn_def)
    from manageRetries_no_finish(4,5) [OF this] show ?thesis by simp
  next
    case (Inr out)
    show ?thesis
    proof (cases "sendChunk u s1 out")
      case (Inl err)
      with Pair Inr assms have "manageRetries u s1 = (acts, s', nx)" by (simp add: turn_def)
      from manageRetries_no_finish(4,5) [OF this] show ?thesis by simp
    next
      case req: (Inr req)
      let ?s2 = "s1\<lparr>posts := posts s1 + 1\<rparr>"
      show ?thesis
      proof (cases "server u (posts s1)")
        case Rejected
        obtain a where a: "manageRetries u ?s2 = (a, s', nx)" and "acts = Post req # a"
          using Pair Inr req Rejected assms
          by (auto simp: turn_def fetch_def split: prod.splits)
        with manageRetries_no_finish(4,5) [OF a] show ?thesis by simp
      next
        case (Response st)
        obtain a where a: "on_response u ?s2 st = (a, s', nx)" and "acts = Post req # a"
          using Pair Inr req Response assms
          by (auto simp: turn_def fetch_def split: prod.splits)
        with on_response_ends [OF a] show ?thesis by simp
      qed
    qed
  qed
qed

lemma run_ends:
  "events_of (fst (sendChunks u s)) \<noteq> [] \<and>
   (Finish \<in> set (events_of (fst (sendChunks u s)))
    \<or> (\<exists>m. last (events_of (fst (sendChunks u s))) = Error m))"
proof (induction u s rule: sendChunks.induct)
  case (1 u s)
  obtain acts s' nx where t: "turn u s = (acts, s', nx)"
    by (cases "turn u s") auto
  show ?case
  proof (cases nx)
    case Continue
    with t have t': "turn u s = (acts, s', Continue)" by simp
    have ih: "events_of (fst (sendChunks u s')) \<noteq> [] \<and>
       (Finish \<in> set (events_of (fst (sendChunks u s')))
        \<or> (\<exists>m. last (events_of (fst (sendChunks u s'))) = Error m))"
      using "1.IH" [OF t' [symmetric] refl refl] .
    then show ?thesis
      by (auto simp: sendChunks_Continue [OF t'])
  next
    case Stop
    with t have t': "turn u s = (acts, s', Stop)" by simp
    from turn_ends [OF t'] show ?thesis
      by (simp add: sendChunks_Stop [OF t'])
  qed
qed

lemma no_finish_turn:
  assumes np: "postParams u = None"
      and nm: "length (file_bytes u) mod chunkSizeBytes u \<noteq> 0"
      and tc: "totalChunks u = nat \<lceil>(of_nat (length (file_bytes u)) / of_nat (chunkSizeBytes u) :: rat)\<rceil>"
      and inv: "chunkCount s * chunkSizeBytes u \<le> fd_pos s"
      and t: "turn u s = (acts, s', nx)"
  shows "Finish \<notin> set (events_of acts) \<and> chunkCount s' * chunkSizeBytes u \<le> fd_pos s'"
proof (cases "getChunk u s")
  case (Pair res s1)
  note c1 = getChunk_counters(1) [OF Pair]
  note p1 = getChunk_pos [OF Pair]
  have inv1: "chunkCount s1 * chunkSizeBytes u \<le> fd_pos s1"
    using inv c1 p1 by simp
  show ?thesis
  proof (cases res)
    case (Inl err)
    with Pair t have "manageRetries u s1 = (acts, s', nx)" by (simp add: turn_def)
    from manageRetries_no_finish(1,2,3) [OF this] inv1 show ?thesis by simp
  next
    case (Inr out)
    show ?thesis
    proof (cases "sendChunk u s1 out")
      case (Inl err)
      with Pair Inr t have "manageRetries u s1 = (acts, s', nx)" by (simp add: turn_def)
      from manageRetries_no_finish(1,2,3) [OF this] inv1 show ?thesis by simp
    next
      case req: (Inr req)
      let ?s2 = "s1\<lparr>posts := posts s1 + 1\<rparr>"
      let ?c = "chunkSizeBytes u" and ?n = "length (file_bytes u)"
      from sendChunk_without_postParams [OF np req] obtain ch where
        ch: "out = Some ch" "\<not> lastChunk ch" by blast
      have g: "getChunk u s = (Inr (Some ch), s1)" using Pair Inr ch by simp
      note f = getChunk_full [OF g ch(2)]
      have le: "(chunkCount s + 1) * ?c \<le> ?n"
        using inv f(2) by (simp add: algebra_simps)
      have "(chunkCount s + 1) * ?c \<noteq> ?n"
        using nm by (metis mod_mult_self2_is_0)
      with le have "(chunkCount s + 1) * ?c < ?n" by simp
      then have lt: "chunkCount s + 1 < totalChunks u"
        using f(3) by (simp only: tc total_gt_iff)
      have inv2: "(chunkCount s + 1) * ?c \<le> fd_pos s1"
        using inv f(1) by (simp add: algebra_simps)
      show ?thesis
      proof (cases "server u (posts s1)")
        case Rejected
        obtain a where a: "manageRetries u ?s2 = (a, s', nx)" and "acts = Post req # a"
          using Pair Inr req Rejected t
          by (auto simp: turn_def fetch_def split: prod.splits)
        with manageRetries_no_finish(1,2,3) [OF a] inv1 show ?thesis by simp
      next
        case (Response st)
        obtain a where a: "on_response u ?s2 st = (a, s', nx)" and acts: "acts = Post req # a"
          using Pair Inr req Response t
          by (auto simp: turn_def fetch_def split: prod.splits)
        show ?thesis
        proof (cases "st = 200 \<or> st = 201 \<or> st = 204")
          case True
          then show ?thesis using a acts lt c1 inv2
            by (auto simp: on_response_def Let_def)
        next
          case False
          show ?thesis
          proof (cases "st \<in> set [408, 502, 503, 504]")
            case True
            with False a have "manageRetries u ?s2 = (a, s', nx)" by (simp add: on_response_def)
            from manageRetries_no_finish(1,2,3) [OF this] inv1 acts show ?thesis by simp
          next
            case n: False
            with False a acts inv1 show ?thesis by (auto simp: on_response_def)
          qed
        qed
      qed
    qed
  qed
qed

lemma no_finish_run:
  assumes "postParams u = None"
      and "length (file_bytes u) mod chunkSizeBytes u \<noteq> 0"
      and "totalChunks u = nat \<lceil>(of_nat (length (file_bytes u)) / of_nat (chunkSizeBytes u) :: rat)\<rceil>"
      and "chunkCount s * chunkSizeBytes u \<le> fd_pos s"
  shows "Finish \<notin> set (events_of (fst (sendChunks u s)))"
  using assms
proof (induction u s rule: sendChunks.induct)
  case (1 u s)
  obtain acts s' nx where t: "turn u s = (acts, s', nx)"
    by (cases "turn u s") auto
  note nt = no_finish_turn [OF "1.prems" t]
  show ?case
  proof (cases nx)
    case Continue
    with t have t': "turn u s = (acts, s', Continue)" by simp
    have "Finish \<notin> set (events_of (fst (sendChunks u s')))"
      using "1.IH" [OF t' [symmetric] refl refl "1.prems"(1,2,3)] nt by simp
    then show ?thesis using nt
      by (simp add: sendChunks_Continue [OF t'])
  next
    case Stop
    with t have t': "turn u s = (acts, s', Stop)" by simp
    from nt show ?thesis
      by (simp add: sendChunks_Stop [OF t'])
  qed
qed

lemma short_read_throws:
  assumes "postParams u = None" and "fd_open s"
      and "fd_pos s < length (file_bytes u)"
      and "length (file_bytes u) - fd_pos s < chunkSizeBytes u"
  shows "\<exists>ch s1. getChunk u s = (Inr (Some ch), s1) \<and> lastChunk ch
           \<and> sendChunk u s1 (Some ch) = Inl TypeError"
    and "doomed u s"
  using assms
  by (auto simp: getChunk_def fs_read_def sendChunk_def doomed_def Let_def min_def)

text \<open>
  Claim C9. Without \<open>postParams\<close>, a file whose size is not a multiple of the chunk size
  never finishes, whatever the server answers: \<open>finish\<close> is not emitted and the last
  event of the session is an \<open>error\<close>. In any state where the next read is the short last
  chunk, the chunk is flagged as last, building its request throws before anything is
  sent, and what follows is one \<open>fileRetry\<close> event for each retry still in the budget,
  then the \<open>error\<close> event, with no request at all.
\<close>

theorem missing_postParams:
  assumes "p_endpoint p \<noteq> []" and "disk (p_file p) = Readable bs"
      and "p_postParams p = None"
      and "length bs mod ((if p_chunkSize p = 0 then 10 else p_chunkSize p) * 1024 * 1024) \<noteq> 0"
  shows "case constructor disk srv p of
           Inl err \<Rightarrow> False
         | Inr (u, tr, sf) \<Rightarrow>
             Finish \<notin> set (events_of tr) \<and>
             (\<exists>m. last (events_of tr) = Error m) \<and>
             (\<forall>s. fd_open s \<and> fd_pos s < length bs \<and> length bs - fd_pos s < chunkSizeBytes u \<longrightarrow>
                (\<exists>ch s1. getChunk u s = (Inr (Some ch), s1) \<and> lastChunk ch
                    \<and> sendChunk u s1 (Some ch) = Inl TypeError) \<and>
                fst (sendChunks u s) =
                  map Emit (notices u (chunkCount s) (retriesCount s)) @
                  [Emit (Error (no_retries_message (chunkCount s)))])"
proof -
  define c where "c = (if p_chunkSize p = 0 then 10 else p_chunkSize p) * 1024 * 1024"
  define u where "u = \<lparr>file_bytes = bs, postParams = None, chunkSizeBytes = c,
      retries = (if p_retries p = 0 then 5 else p_retries p),
      totalChunks = nat \<lceil>(of_nat (length bs) / of_nat c :: rat)\<rceil>, server = srv\<rparr>"
  define s0 where "s0 = initial\<lparr>fd_open := True, fd_pos := 0\<rparr>"
  have con: "constructor disk srv p = Inr (u, sendChunks u s0)"
    using assms(1,2,3) by (simp add: start_eval u_def s0_def c_def Let_def)
  have u1: "postParams u = None" by (simp add: u_def)
  have u2: "length (file_bytes u) mod chunkSizeBytes u \<noteq> 0"
    using assms(4) by (simp add: u_def c_def)
  have u3: "totalChunks u = nat \<lceil>(of_nat (length (file_bytes u)) / of_nat (chunkSizeBytes u) :: rat)\<rceil>"
    by (simp add: u_def)
  have u4: "chunkCount s0 * chunkSizeBytes u \<le> fd_pos s0"
    by (simp add: s0_def initial_def)
  have nf: "Finish \<notin> set (events_of (fst (sendChunks u s0)))"
    by (rule no_finish_run [OF u1 u2 u3 u4])
  with run_ends [of u s0] have er: "\<exists>m. last (events_of (fst (sendChunks u s0))) = Error m"
    by blast
  have b: "(\<exists>ch s1. getChunk u s = (Inr (Some ch), s1) \<and> lastChunk ch
                    \<and> sendChunk u s1 (Some ch) = Inl TypeError) \<and>
            fst (sendChunks u s) =
              map Emit (notices u (chunkCount s) (retriesCount s)) @
              [Emit (Error (no_retries_message (chunkCount s)))]"
    if "fd_open s \<and> fd_pos s < length bs \<and> length bs - fd_pos s < chunkSizeBytes u" for s
  proof -
    from that have h: "fd_open s" "fd_pos s < length (file_bytes u)"
      "length (file_bytes u) - fd_pos s < chunkSizeBytes u"
      by (simp_all add: u_def)
    from short_read_throws(1) [OF u1 h] doomed_run [OF short_read_throws(2) [OF u1 h]]
    show ?thesis by simp
  qed
  obtain tr sf where r: "sendChunks u s0 = (tr, sf)"
    by (cases "sendChunks u s0")
  with nf er have "Finish \<notin> set (events_of tr)" "\<exists>m. last (events_of tr) = Error m"
    by simp_all
  with con r b show ?thesis
    by simp
qed

theorem missing_postParams_witness:
  "constructor (\<lambda>path. Readable [1, 2, 3]) (\<lambda>n. Response 200)
     \<lparr>p_endpoint = ''http://localhost/upload'', p_file = ''/tmp/three-bytes'',
      p_postParams = None, p_chunkSize = 0, p_retries = 2\<rparr>
   = Inr (\<lparr>file_bytes = [1, 2, 3], postParams = None, chunkSizeBytes = 10485760, retries = 2,
           totalChunks = 1, server = (\<lambda>n. Response 200)\<rparr>,
          [Emit (FileRetry ''An error occured uploading chunk 0. 1 retries left'' 0 1),
           Emit (FileRetry ''An error occured uploading chunk 0. 0 retries left'' 0 0),
           Emit (Error ''An error occured uploading chunk 0. No more retries, stopping upload'')],
          \<lparr>chunkCount = 0, retriesCount = 3, fd_open = False, fd_pos = 3, posts = 0\<rparr>)"
  using missing_postParams [of
     "\<lparr>p_endpoint = ''http://localhost/upload'', p_file = ''/tmp/three-bytes'',
      p_postParams = None, p_chunkSize = 0, p_retries = 2\<rparr>"
     "\<lambda>path. Readable [1, 2, 3]" "[1, 2, 3]" "\<lambda>n. Response 200"]
  by (simp add: start_eval run_eval message_eval ceiling_div_numeral)

subsection \<open>The chunks of a file\<close>

lemma chunks_of_Nil [simp]: "chunks_of c [] = []"
  by (simp add: chunks_of.simps)

lemma chunks_of_step:
  "0 < c \<Longrightarrow> xs \<noteq> [] \<Longrightarrow> chunks_of c xs = take c xs # chunks_of c (drop c xs)"
  by (subst chunks_of.simps) simp

lemma concat_chunks_of: "0 < c \<Longrightarrow> concat (chunks_of c xs) = xs"
proof (induction c xs rule: chunks_of.induct)
  case (1 c xs)
  show ?case
  proof (cases "xs = []")
    case True
    then show ?thesis by simp
  next
    case False
    with 1 show ?thesis by (simp add: chunks_of_step)
  qed
qed

lemma chunks_of_full:
  "0 < c \<Longrightarrow> Suc i < length (chunks_of c xs) \<Longrightarrow> length (chunks_of c xs ! i) = c"
proof (induction c xs arbitrary: i rule: chunks_of.induct)
  case (1 c xs)
  show ?case
  proof (cases "xs = []")
    case True
    with "1.prems" show ?thesis by simp
  next
    case False
    note st = chunks_of_step [OF "1.prems"(1) False]
    show ?thesis
    proof (cases i)
      case 0
      have "chunks_of c (drop c xs) \<noteq> []"
        using "1.prems"(2) st by auto
      then have "drop c xs \<noteq> []" by auto
      then have "c < length xs" by simp
      then show ?thesis using 0 st by simp
    next
      case (Suc j)
      have "Suc j < length (chunks_of c (drop c xs))"
        using "1.prems"(2) st Suc by simp
      from "1.IH" [OF _ "1.prems"(1) this] "1.prems"(1) False
      show ?thesis using Suc st by simp
    qed
  qed
qed

lemma file_part_fields:
  "file_part \<lparr>chunk_number = k, form = map (\<lambda>(k, v). Field k v) pp @ [FileField bs]\<rparr> = bs"
  by (induction pp) (auto simp: file_part_def)

lemma sendChunk_with_postParams:
  assumes "postParams u = Some pp"
  shows "\<exists>req. sendChunk u s1 (Some ch) = Inr req \<and> file_part req = data ch
           \<and> chunk_number req = chunkCount s1"
proof (cases "lastChunk ch")
  case True
  with assms show ?thesis by (simp add: sendChunk_def file_part_fields)
next
  case False
  with assms show ?thesis by (simp add: sendChunk_def file_part_def)
qed

lemma accept_turn:
  assumes c: "0 < chunkSizeBytes u"
      and pp: "postParams u = Some pp"
      and srv: "\<forall>n. accepts (server u n)"
      and tc: "totalChunks u = nat \<lceil>(of_nat (length (file_bytes u)) / of_nat (chunkSizeBytes u) :: rat)\<rceil>"
      and op: "fd_open s"
      and pos: "fd_pos s = chunkCount s * chunkSizeBytes u"
      and lt: "chunkCount s < totalChunks u"
  shows "\<exists>req evs s'. turn u s = (Post req # map Emit evs, s',
              if chunkCount s + 1 < totalChunks u then Continue else Stop)
          \<and> file_part req = take (chunkSizeBytes u) (drop (fd_pos s) (file_bytes u))
          \<and> chunk_number req = chunkCount s
          \<and> chunkCount s' = chunkCount s + 1 \<and> fd_open s'
          \<and> (chunkCount s + 1 < totalChunks u \<longrightarrow>
                fd_pos s' = fd_pos s + chunkSizeBytes u
                \<and> fd_pos s + chunkSizeBytes u < length (file_bytes u))
          \<and> (\<not> chunkCount s + 1 < totalChunks u \<longrightarrow>
                length (file_bytes u) \<le> fd_pos s + chunkSizeBytes u)"
proof -
  let ?c = "chunkSizeBytes u" and ?n = "length (file_bytes u)"
  let ?bs = "take ?c (drop (fd_pos s) (file_bytes u))"
  let ?s1 = "s\<lparr>fd_pos := fd_pos s + length ?bs\<rparr>"
  let ?ch = "\<lparr>data = ?bs, lastChunk = (length ?bs < ?c)\<rparr>"
  let ?s2 = "?s1\<lparr>posts := posts ?s1 + 1\<rparr>"
  let ?s3 = "?s2\<lparr>chunkCount := chunkCount ?s2 + 1\<rparr>"
  have rem: "fd_pos s < ?n"
    using lt c pos by (simp only: tc total_gt_iff)
  then have ne: "length ?bs \<noteq> 0" using c by simp
  have nx: "chunkCount s + 1 < totalChunks u \<longleftrightarrow> fd_pos s + ?c < ?n"
    using c pos by (simp only: tc total_gt_iff) (simp add: algebra_simps)
  have g: "getChunk u s = (Inr (Some ?ch), ?s1)"
    using op ne by (auto simp: getChunk_def fs_read_def Let_def)
  from sendChunk_with_postParams [OF pp, of ?s1 ?ch]
  obtain req where q: "sendChunk u ?s1 (Some ?ch) = Inr req"
    and fp: "file_part req = ?bs" and cn: "chunk_number req = chunkCount s"
    by auto
  from srv have "accepts (server u (posts s))" by blast
  then obtain st where st: "server u (posts s) = Response st" "st = 200 \<or> st = 201 \<or> st = 204"
    by (auto simp: accepts_def split: outcome.splits)
  have t: "turn u s =
      (if chunkCount s + 1 < totalChunks u
       then (Post req # map Emit [Progress (percentProgress u ?s3)], ?s3, Continue)
       else (Post req # map Emit [Finish, Progress (percentProgress u ?s3)], ?s3, Stop))"
    using g q st by (auto simp: turn_def fetch_def on_response_def Let_def)
  show ?thesis
  proof (cases "chunkCount s + 1 < totalChunks u")
    case True
    then have "fd_pos s + ?c < ?n" using nx by simp
    then have "length ?bs = ?c" by simp
    with True t fp cn op \<open>fd_pos s + ?c < ?n\<close> show ?thesis
      by (intro exI [of _ req] exI [of _ "[Progress (percentProgress u ?s3)]"] exI [of _ ?s3])
         simp
  next
    case False
    then have "?n \<le> fd_pos s + ?c" using nx by simp
    with False t fp cn op show ?thesis
      by (intro exI [of _ req] exI [of _ "[Finish, Progress (percentProgress u ?s3)]"]
            exI [of _ ?s3])
         simp
  qed
qed

lemma accept_run:
  assumes "0 < chunkSizeBytes u"
      and "postParams u = Some pp"
      and "\<forall>n. accepts (server u n)"
      and "totalChunks u = nat \<lceil>(of_nat (length (file_bytes u)) / of_nat (chunkSizeBytes u) :: rat)\<rceil>"
      and "fd_open s"
      and "fd_pos s = chunkCount s * chunkSizeBytes u"
      and "chunkCount s < totalChunks u"
  shows "map file_part (posts_of (fst (sendChunks u s))) =
           chunks_of (chunkSizeBytes u) (drop (fd_pos s) (file_bytes u))
         \<and> map chunk_number (posts_of (fst (sendChunks u s))) = [chunkCount s ..< totalChunks u]"
  using assms
proof (induction u s rule: sendChunks.induct)
  case (1 u s)
  let ?c = "chunkSizeBytes u" and ?n = "length (file_bytes u)"
  from accept_turn [OF "1.prems"] obtain req evs s' where
    t: "turn u s = (Post req # map Emit evs, s',
              if chunkCount s + 1 < totalChunks u then Continue else Stop)" and
    fp: "file_part req = take ?c (drop (fd_pos s) (file_bytes u))" and
    cn: "chunk_number req = chunkCount s" and
    cc: "chunkCount s' = chunkCount s + 1" and op: "fd_open s'" and
    go: "chunkCount s + 1 < totalChunks u \<longrightarrow>
           fd_pos s' = fd_pos s + ?c \<and> fd_pos s + ?c < ?n" and
    stop: "\<not> chunkCount s + 1 < totalChunks u \<longrightarrow> ?n \<le> fd_pos s + ?c"
    by blast
  have rem: "fd_pos s < ?n"
    using "1.prems"(1,6,7) by (simp only: "1.prems"(4) total_gt_iff)
  then have ne: "drop (fd_pos s) (file_bytes u) \<noteq> []" by simp
  note st = chunks_of_step [OF "1.prems"(1) ne]
  show ?case
  proof (cases "chunkCount s + 1 < totalChunks u")
    case True
    with t have t': "turn u s = (Post req # map Emit evs, s', Continue)" by simp
    have p': "fd_pos s' = chunkCount s' * ?c"
      using go True cc "1.prems"(6) by (simp add: algebra_simps)
    have lt': "chunkCount s' < totalChunks u" using True cc by simp
    have ih: "map file_part (posts_of (fst (sendChunks u s'))) =
           chunks_of ?c (drop (fd_pos s') (file_bytes u))
         \<and> map chunk_number (posts_of (fst (sendChunks u s'))) = [chunkCount s' ..< totalChunks u]"
      using "1.IH" [OF t' [symmetric] refl refl "1.prems"(1,2,3,4) op p' lt'] .
    have d: "fd_pos s' = ?c + fd_pos s"
      using go True by simp
    have up: "[chunkCount s ..< totalChunks u] = chunkCount s # [chunkCount s' ..< totalChunks u]"
      using "1.prems"(7) cc by (simp add: upt_conv_Cons)
    show ?thesis
      using ih fp cn by (simp add: sendChunks_Continue [OF t'] st d up)
  next
    case False
    with t have t': "turn u s = (Post req # map Emit evs, s', Stop)" by simp
    have d: "drop (?c + fd_pos s) (file_bytes u) = []"
      using stop False by simp
    have "totalChunks u = Suc (chunkCount s)"
      using False "1.prems"(7) by simp
    then have up: "[chunkCount s ..< totalChunks u] = [chunkCount s]"
      by simp
    show ?thesis
      using fp cn by (simp add: sendChunks_Stop [OF t'] st d up)
  qed
qed

text \<open>
  Claim C6, on the chunk sizes of the model: a whole number of megabytes, below the
  2048 MB from which Node cannot read a chunk in one call. The constructor computes
  \<open>totalChunks\<close> once, as the ceiling of the file size over the chunk size, which is
  positive. When the server accepts every request (and post parameters are given, so that
  the last request can be built), the session sends the chunks \<open>0, \<dots>, totalChunks - 1\<close> in
  this order; every chunk but the last holds exactly \<open>chunkSizeBytes\<close> bytes, the chunks
  put together are the file, and their sizes add up to the file size. The instance is the
  file of 25 MB with chunks of 10 MB: three chunks, of 10, 10 and 5 MB. A chunk size that is
  not a whole number of bytes (0.3 MB) is outside these settings.
\<close>

theorem chunking_whole_megabytes:
  assumes "p_endpoint p \<noteq> []" and "disk (p_file p) = Readable bs"
      and "p_postParams p = Some pp" and "\<forall>n. accepts (srv n)"
      and "p_chunkSize p < 2048"
  shows "case constructor disk srv p of
           Inl err \<Rightarrow> False
         | Inr (u, tr, sf) \<Rightarrow>
             0 < chunkSizeBytes u \<and>
             totalChunks u = nat \<lceil>(of_nat (length bs) / of_nat (chunkSizeBytes u) :: rat)\<rceil> \<and>
             map chunk_number (posts_of tr) = [0 ..< totalChunks u] \<and>
             (\<forall>i. Suc i < totalChunks u \<longrightarrow>
                  length (file_part (posts_of tr ! i)) = chunkSizeBytes u) \<and>
             concat (map file_part (posts_of tr)) = bs \<and>
             sum_list (map (\<lambda>r. length (file_part r)) (posts_of tr)) = length bs"
proof -
  define c where "c = (if p_chunkSize p = 0 then 10 else p_chunkSize p) * 1024 * 1024"
  define u where "u = \<lparr>file_bytes = bs, postParams = Some pp, chunkSizeBytes = c,
      retries = (if p_retries p = 0 then 5 else p_retries p),
      totalChunks = nat \<lceil>(of_nat (length bs) / of_nat c :: rat)\<rceil>, server = srv\<rparr>"
  define s0 where "s0 = initial\<lparr>fd_open := True, fd_pos := 0\<rparr>"
  have con: "constructor disk srv p = Inr (u, sendChunks u s0)"
    using assms(1,2,3) by (simp add: start_eval u_def s0_def c_def Let_def)
  have c0: "0 < chunkSizeBytes u" by (simp add: u_def c_def)
  have tc: "totalChunks u = nat \<lceil>(of_nat (length (file_bytes u)) / of_nat (chunkSizeBytes u) :: rat)\<rceil>"
    by (simp add: u_def)
  have run: "map file_part (posts_of (fst (sendChunks u s0))) = chunks_of (chunkSizeBytes u) bs
     \<and> map chunk_number (posts_of (fst (sendChunks u s0))) = [0 ..< totalChunks u]"
  proof (cases "0 < totalChunks u")
    case True
    have "map file_part (posts_of (fst (sendChunks u s0))) =
           chunks_of (chunkSizeBytes u) (drop (fd_pos s0) (file_bytes u))
         \<and> map chunk_number (posts_of (fst (sendChunks u s0))) = [chunkCount s0 ..< totalChunks u]"
      using True assms(4)
      by (intro accept_run [OF c0 _ _ tc]) (simp_all add: u_def s0_def initial_def)
    then show ?thesis by (simp add: s0_def initial_def u_def)
  next
    case False
    have "0 < totalChunks u \<longleftrightarrow> 0 * chunkSizeBytes u < length (file_bytes u)"
      unfolding tc by (rule total_gt_iff [OF c0])
    with False have e: "bs = []" by (simp add: u_def)
    then have "doomed u s0" by (simp add: doomed_def u_def)
    from doomed_run [OF this] show ?thesis using False e by simp
  qed
  obtain tr sf where r: "sendChunks u s0 = (tr, sf)"
    by (cases "sendChunks u s0")
  with run have m: "map file_part (posts_of tr) = chunks_of (chunkSizeBytes u) bs"
    and n: "map chunk_number (posts_of tr) = [0 ..< totalChunks u]"
    by simp_all
  have len: "length (posts_of tr) = totalChunks u"
    using n by (metis length_map length_upt diff_zero)
  have cat: "concat (map file_part (posts_of tr)) = bs"
    using m c0 by (simp add: concat_chunks_of)
  have full: "length (file_part (posts_of tr ! i)) = chunkSizeBytes u" if "Suc i < totalChunks u" for i
  proof -
    have i: "i < length (posts_of tr)" using that len by simp
    have "Suc i < length (chunks_of (chunkSizeBytes u) bs)"
      using that len m by (metis length_map)
    from chunks_of_full [OF c0 this] have "length (map file_part (posts_of tr) ! i) = chunkSizeBytes u"
      using m by simp
    then show ?thesis using i by simp
  qed
  have "sum_list (map (\<lambda>r. length (file_part r)) (posts_of tr)) =
        length (concat (map file_part (posts_of tr)))"
    by (simp add: length_concat comp_def)
  then have sm: "sum_list (map (\<lambda>r. length (file_part r)) (posts_of tr)) = length bs"
    using cat by simp
  have tc': "totalChunks u = nat \<lceil>(of_nat (length bs) / of_nat (chunkSizeBytes u) :: rat)\<rceil>"
    by (simp add: u_def)
  from con r c0 tc' n full cat sm show ?thesis
    by simp
qed

theorem chunking_whole_megabytes_instance:
  "constructor (\<lambda>path. Readable (replicate 26214400 7)) (\<lambda>n. Response 200)
     \<lparr>p_endpoint = ''http://localhost/upload'', p_file = ''/tmp/twenty-five-megabytes'',
      p_postParams = Some [(''name'', ''report'')], p_chunkSize = 10, p_retries = 0\<rparr>
   = Inr (\<lparr>file_bytes = replicate 26214400 7, postParams = Some [(''name'', ''report'')],
           chunkSizeBytes = 10485760, retries = 5, totalChunks = 3,
           server = (\<lambda>n. Response 200)\<rparr>,
          [Post \<lparr>chunk_number = 0, form = [FileField (replicate 10485760 7)]\<rparr>,
           Emit (Progress (Percent 33)),
           Post \<lparr>chunk_number = 1, form = [FileField (replicate 10485760 7)]\<rparr>,
           Emit (Progress (Percent 67)),
           Post \<lparr>chunk_number = 2,
                 form = [Field ''name'' ''report'', FileField (replicate 5242880 7)]\<rparr>,
           Emit Finish,
           Emit (Progress (Percent 100))],
          \<lparr>chunkCount = 3, retriesCount = 0, fd_open = True, fd_pos = 26214400, posts = 3\<rparr>)"
  using chunking_whole_megabytes [of
     "\<lparr>p_endpoint = ''http://localhost/upload'', p_file = ''/tmp/twenty-five-megabytes'',
      p_postParams = Some [(''name'', ''report'')], p_chunkSize = 10, p_retries = 0\<rparr>"
     "\<lambda>path. Readable (replicate 26214400 7)" "replicate 26214400 7"
     "[(''name'', ''report'')]" "\<lambda>n. Response 200"]
  by (simp add: start_eval run_eval ceiling_div_nat ceiling_div_numeral percent_eval accepts_def)

end
